theory Spec2Isabelle
  imports Complex_Main "HOL-Library.Monad_Syntax"
begin

section \<open>JSON values\<close>

text \<open>
  What \<^verbatim>\<open>JSON.parse\<close> returns. A number is the value of its literal (no claim
  below depends on rounding to a double); an object lists its own properties, each key
  once.
\<close>

datatype json =
    JNull
  | JBool bool
  | JNumber rat
  | JString string
  | JArray "json list"
  | JObject "(string \<times> json) list"

section \<open>Types.ts: the schemas and the types they decode to\<close>

text \<open>
  The library \<^verbatim>\<open>effect/Schema\<close> is not part of the repository. The client below
  takes the two decoders it calls as parameters, so what is proved of it holds whatever
  the library does. For concrete runs, this section models the combinators that
  Types.ts uses as decoders of a parsed JSON value (\<open>None\<close> is a decoding failure): a
  struct and a record accept objects and ignore properties they do not declare, and a
  property declared with \<^verbatim>\<open>Schema.optional\<close> may be missing.
\<close>

definition Schema_String :: "json \<Rightarrow> string option" where
  "Schema_String j = (case j of JString s \<Rightarrow> Some s | _ \<Rightarrow> None)"

definition Schema_Number :: "json \<Rightarrow> rat option" where
  "Schema_Number j = (case j of JNumber n \<Rightarrow> Some n | _ \<Rightarrow> None)"

definition Schema_Boolean :: "json \<Rightarrow> bool option" where
  "Schema_Boolean j = (case j of JBool b \<Rightarrow> Some b | _ \<Rightarrow> None)"

definition Schema_Any :: "json \<Rightarrow> json option" where
  "Schema_Any j = Some j"

definition Schema_Array :: "(json \<Rightarrow> 'a option) \<Rightarrow> json \<Rightarrow> 'a list option" where
  "Schema_Array item j = (case j of JArray xs \<Rightarrow> those (map item xs) | _ \<Rightarrow> None)"

definition Schema_Record :: "(json \<Rightarrow> 'a option) \<Rightarrow> json \<Rightarrow> (string \<times> 'a) list option" where
  "Schema_Record val j =
     (case j of
        JObject fs \<Rightarrow> those (map (\<lambda>(k, v). map_option (Pair k) (val v)) fs)
      | _ \<Rightarrow> None)"

definition required :: "(string \<times> json) list \<Rightarrow> string \<Rightarrow> (json \<Rightarrow> 'a option) \<Rightarrow> 'a option" where
  "required fs key sch = (case map_of fs key of None \<Rightarrow> None | Some v \<Rightarrow> sch v)"

definition optional :: "(string \<times> json) list \<Rightarrow> string \<Rightarrow> (json \<Rightarrow> 'a option) \<Rightarrow> 'a option option" where
  "optional fs key sch = (case map_of fs key of None \<Rightarrow> Some None | Some v \<Rightarrow> map_option Some (sch v))"

record Capability =
  maxSizeUpload :: "rat option"
  maxConcurrentUpload :: "rat option"
  maxSizeRequest :: "rat option"
  maxConcurrentRequests :: "rat option"
  maxCallsInRequest :: "rat option"
  maxObjectsInGet :: "rat option"
  maxObjectsInSet :: "rat option"
  collationAlgorithms :: "string list option"

definition Capability_schema :: "json \<Rightarrow> Capability option" where
  "Capability_schema j =
     (case j of
        JObject fs \<Rightarrow> do {
          a \<leftarrow> optional fs ''maxSizeUpload'' Schema_Number;
          b \<leftarrow> optional fs ''maxConcurrentUpload'' Schema_Number;
          c \<leftarrow> optional fs ''maxSizeRequest'' Schema_Number;
          d \<leftarrow> optional fs ''maxConcurrentRequests'' Schema_Number;
          e \<leftarrow> optional fs ''maxCallsInRequest'' Schema_Number;
          f \<leftarrow> optional fs ''maxObjectsInGet'' Schema_Number;
          g \<leftarrow> optional fs ''maxObjectsInSet'' Schema_Number;
          h \<leftarrow> optional fs ''collationAlgorithms'' (Schema_Array Schema_String);
          Some \<lparr>maxSizeUpload = a, maxConcurrentUpload = b, maxSizeRequest = c,
                maxConcurrentRequests = d, maxCallsInRequest = e, maxObjectsInGet = f,
                maxObjectsInSet = g, collationAlgorithms = h\<rparr>
        }
      | _ \<Rightarrow> None)"

record Account =
  name :: string
  isPersonal :: bool
  isReadOnly :: bool
  accountCapabilities :: "(string \<times> (string \<times> json) list) list"

definition Account_schema :: "json \<Rightarrow> Account option" where
  "Account_schema j =
     (case j of
        JObject fs \<Rightarrow> do {
          a \<leftarrow> required fs ''name'' Schema_String;
          b \<leftarrow> required fs ''isPersonal'' Schema_Boolean;
          c \<leftarrow> required fs ''isReadOnly'' Schema_Boolean;
          d \<leftarrow> required fs ''accountCapabilities'' (Schema_Record (Schema_Record Schema_Any));
          Some \<lparr>name = a, isPersonal = b, isReadOnly = c, accountCapabilities = d\<rparr>
        }
      | _ \<Rightarrow> None)"

record Session =
  capabilities :: "(string \<times> Capability) list"
  accounts :: "(string \<times> Account) list"
  primaryAccounts :: "(string \<times> string) list"
  username :: string
  apiUrl :: string
  downloadUrl :: string
  uploadUrl :: string
  eventSourceUrl :: string
  state :: string

definition Session_schema :: "json \<Rightarrow> Session option" where
  "Session_schema j =
     (case j of
        JObject fs \<Rightarrow> do {
          a \<leftarrow> required fs ''capabilities'' (Schema_Record Capability_schema);
          b \<leftarrow> required fs ''accounts'' (Schema_Record Account_schema);
          c \<leftarrow> required fs ''primaryAccounts'' (Schema_Record Schema_String);
          d \<leftarrow> required fs ''username'' Schema_String;
          e \<leftarrow> required fs ''apiUrl'' Schema_String;
          f \<leftarrow> required fs ''downloadUrl'' Schema_String;
          g \<leftarrow> required fs ''uploadUrl'' Schema_String;
          h \<leftarrow> required fs ''eventSourceUrl'' Schema_String;
          i \<leftarrow> required fs ''state'' Schema_String;
          Some \<lparr>capabilities = a, accounts = b, primaryAccounts = c, username = d,
                apiUrl = e, downloadUrl = f, uploadUrl = g, eventSourceUrl = h, state = i\<rparr>
        }
      | _ \<Rightarrow> None)"

text \<open>An invocation is the triple (method name, arguments, call id).\<close>

type_synonym Invocation = "string \<times> json \<times> string"

type_synonym MethodResponse = "string \<times> json \<times> string"

definition MethodResponse_schema :: "json \<Rightarrow> MethodResponse option" where
  "MethodResponse_schema j =
     (case j of
        JArray [a, b, c] \<Rightarrow> do {
          methodName \<leftarrow> Schema_String a;
          result \<leftarrow> Schema_Any b;
          callId \<leftarrow> Schema_String c;
          Some (methodName, result, callId)
        }
      | _ \<Rightarrow> None)"

record Request =
  usingCaps :: "string list"
  methodCalls :: "Invocation list"
  requestCreatedIds :: "(string \<times> string) list option"

record Response =
  methodResponses :: "MethodResponse list"
  createdIds :: "(string \<times> string) list option"
  sessionState :: string

definition Response_schema :: "json \<Rightarrow> Response option" where
  "Response_schema j =
     (case j of
        JObject fs \<Rightarrow> do {
          a \<leftarrow> required fs ''methodResponses'' (Schema_Array MethodResponse_schema);
          b \<leftarrow> optional fs ''createdIds'' (Schema_Record Schema_String);
          c \<leftarrow> required fs ''sessionState'' Schema_String;
          Some \<lparr>methodResponses = a, createdIds = b, sessionState = c\<rparr>
        }
      | _ \<Rightarrow> None)"

text \<open>
  \<^verbatim>\<open>Schema.decodeUnknown(schema)(value)\<close> gives the decoded value or the library's
  ParseError, here the text it renders to. \<open>Decoders\<close> holds the two decoders the
  client calls, \<^verbatim>\<open>Schema.decodeUnknown(Session)\<close> and
  \<^verbatim>\<open>Schema.decodeUnknown(Response)\<close>. \<open>typesDecoders\<close> are the ones that the
  schemas above give; a fixed text stands for the rendering of their ParseError.
\<close>

type_synonym ParseError = string

record Decoders =
  decodeSession :: "json \<Rightarrow> ParseError + Session"
  decodeResponse :: "json \<Rightarrow> ParseError + Response"

definition decodeUnknown :: "(json \<Rightarrow> 'a option) \<Rightarrow> json \<Rightarrow> ParseError + 'a" where
  "decodeUnknown sch j = (case sch j of None \<Rightarrow> Inl ''ParseError'' | Some a \<Rightarrow> Inr a)"

definition typesDecoders :: Decoders where
  "typesDecoders =
     \<lparr>decodeSession = decodeUnknown Session_schema,
      decodeResponse = decodeUnknown Response_schema\<rparr>"

section \<open>Errors.ts\<close>

text \<open>
  \<^verbatim>\<open>JMAPMethodError\<close>: a field is \<open>None\<close> when the property is undefined. The
  server's payload is not validated before it is read
  (\<^verbatim>\<open>const methodError = result as any\<close>), so \<open>type\<close> holds whatever JSON value
  the payload had there.
\<close>

record JMAPMethodError =
  type :: "json option"
  description :: "json option"
  details :: "json option"
  callId :: "string option"

datatype cause = HttpClientError string | SyntaxError | ParseFailure ParseError

datatype failure =
    NetworkError string "cause option" "nat option"
  | AuthenticationError string "cause option"
  | SessionError string "cause option"
  | MethodError JMAPMethodError
  | Die string

text \<open>
  \<open>NetworkError message cause status\<close>, \<open>AuthenticationError message details\<close> and
  \<open>SessionError message details\<close> are the tagged errors of Errors.ts. \<open>Die\<close> is the
  defect of an effect whose generator threw (here a TypeError).
\<close>

text \<open>
  Reading a property of a parsed value: undefined (\<open>None\<close>) on anything but an object
  that has it. Reading a property of \<^verbatim>\<open>null\<close> throws; \<open>fromMethodError\<close> handles
  that case before it reads.
\<close>

definition getProp :: "json \<Rightarrow> string \<Rightarrow> json option" where
  "getProp j key = (case j of JObject fs \<Rightarrow> map_of fs key | _ \<Rightarrow> None)"

definition fromMethodError :: "json \<Rightarrow> string option \<Rightarrow> string + JMAPMethodError" where
  "fromMethodError error cid =
     (case error of
        JNull \<Rightarrow> Inl ''TypeError''
      | _ \<Rightarrow> Inr \<lparr>type = getProp error ''type'',
                 description = getProp error ''description'',
                 details = getProp error ''details'',
                 callId = cid\<rparr>)"

definition Errors_network :: "string \<Rightarrow> cause option \<Rightarrow> nat option \<Rightarrow> failure" where
  "Errors_network message c st = NetworkError message c st"

definition Errors_authentication :: "string \<Rightarrow> cause option \<Rightarrow> failure" where
  "Errors_authentication message d = AuthenticationError message d"

definition Errors_session :: "string \<Rightarrow> cause option \<Rightarrow> failure" where
  "Errors_session message d = SessionError message d"

text \<open>
  \<^verbatim>\<open>Effect.fail(JMAPMethodError.fromMethodError(error, callId))\<close> inside a
  generator: the method error, or the defect when building it threw.
\<close>

definition failMethod :: "json \<Rightarrow> string option \<Rightarrow> failure" where
  "failMethod error cid =
     (case fromMethodError error cid of Inl t \<Rightarrow> Die t | Inr e \<Rightarrow> MethodError e)"

section \<open>ResponseUtils.ts: extractMethodResponse\<close>

text \<open>
  Every JavaScript array is truthy, the empty one too, so the first guard of
  \<open>extractMethodResponse\<close> never fires on a value of type Response. The schema
  argument stands for \<^verbatim>\<open>Schema.decodeUnknown(schema)\<close>, with the rendering of its
  ParseError on the left.
\<close>

definition truthy_array :: "'a list \<Rightarrow> bool" where
  "truthy_array xs = True"

definition extractMethodResponse ::
    "Response \<Rightarrow> string \<Rightarrow> string \<Rightarrow> (json \<Rightarrow> ParseError + 'a) \<Rightarrow> failure + 'a" where
  "extractMethodResponse response methodName cid schema =
     (if \<not> truthy_array (methodResponses response) then
        Inl (failMethod
               (JObject [(''type'', JString ''invalidArguments''),
                         (''description'', JString ''No method responses in JMAP response'')])
               (Some cid))
      else
        (case find (\<lambda>(nm, _, i). nm = methodName \<and> i = cid) (methodResponses response) of
           None \<Rightarrow>
             Inl (failMethod
                    (JObject [(''type'', JString ''serverFail''),
                              (''description'',
                               JString (''Method response not found for '' @ methodName))])
                    (Some cid))
         | Some (_, result, _) \<Rightarrow>
             (case schema result of
                Inr a \<Rightarrow> Inr a
              | Inl error \<Rightarrow>
                  Inl (failMethod
                         (JObject [(''type'', JString ''serverFail''),
                                   (''description'',
                                    JString (''Invalid response format: '' @ error))])
                         (Some cid)))))"

section \<open>JMAPClient.ts\<close>

subsection \<open>Configuration\<close>

text \<open>
  The optional numbers are \<open>None\<close> when not given. \<open>maxBatchSize\<close> is an integer of
  either sign: the client does not validate it, and the chunking loop of \<open>batch\<close>
  behaves differently on zero and on negative values.
\<close>

record JMAPClientConfig =
  sessionUrl :: string
  bearerToken :: string
  userAgent :: "string option"
  timeout :: "nat option"
  maxRetries :: "nat option"
  retryDelay :: "nat option"
  maxBatchSize :: "int option"
  enableRequestLogging :: "bool option"

definition defaultConfig :: "string \<Rightarrow> string \<Rightarrow> JMAPClientConfig" where
  "defaultConfig sUrl token =
     \<lparr>sessionUrl = sUrl, bearerToken = token, userAgent = Some ''effect-jmap/0.1.0'',
      timeout = Some 30000, maxRetries = Some 3, retryDelay = Some 1000,
      maxBatchSize = Some 50, enableRequestLogging = Some False\<rparr>"

subsection \<open>The HTTP client and the world the client runs in\<close>

datatype http_method = GET | POST

text \<open>
  A request as the client builds it. The body of a POST is the text
  \<^verbatim>\<open>JSON.stringify(request)\<close>; the model keeps the envelope it serialises. A URL
  parameter holds the number before \<^verbatim>\<open>toString\<close>.
\<close>

record HttpClientRequest =
  httpMethod :: http_method
  url :: string
  headers :: "(string \<times> string) list"
  urlParams :: "(string \<times> nat) list"
  requestBody :: "Request option"

text \<open>
  The body of a response, by what the client's two reading steps make of it:
  \<^verbatim>\<open>response.text\<close> fails, or it gives a text that \<^verbatim>\<open>JSON.parse\<close> rejects, or
  a text that parses to a value.
\<close>

datatype http_body = BodyUnreadable | BodyNotJSON | BodyJSON json

record HttpClientResponse =
  status :: nat
  body :: http_body

text \<open>
  One call of \<^verbatim>\<open>httpClient.execute\<close>: given every attempt made so far and the
  request, the transport's failure or the server's response, and the milliseconds the
  attempt took. Each attempt is recorded with its retry index (0 for the first attempt
  of an exchange).
\<close>

type_synonym HttpClient =
  "(HttpClientRequest \<times> nat) list \<Rightarrow> HttpClientRequest \<Rightarrow> (string + HttpClientResponse) \<times> nat"

record SessionState =
  session :: Session
  lastUpdated :: int

text \<open>
  The state a client closes over and acts on: its variable \<^verbatim>\<open>sessionState\<close>
  (\<open>None\<close> is \<^verbatim>\<open>null\<close>), the clock that \<^verbatim>\<open>Date.now()\<close> and
  \<^verbatim>\<open>new Date()\<close> read, in milliseconds, and the attempts sent so far.
\<close>

record world =
  cachedSessionState :: "SessionState option"
  clock :: int
  sent :: "(HttpClientRequest \<times> nat) list"

definition attempt :: "HttpClient \<Rightarrow> HttpClientRequest \<Rightarrow> nat \<Rightarrow> world
    \<Rightarrow> (string + HttpClientResponse) \<times> world" where
  "attempt http req n w =
     (case http (sent w) req of
        (out, elapsed) \<Rightarrow> (out, w\<lparr>clock := clock w + int elapsed, sent := sent w @ [(req, n)]\<rparr>))"

text \<open>
  \<^verbatim>\<open>httpClient.execute(request).pipe(Effect.retry(retrySchedule))\<close> with
  \<^verbatim>\<open>retrySchedule = exponential(retryDelay ?? 1000) intersect recurs(maxRetries ?? 3)\<close>:
  a failed attempt is repeated while retries are left, after a pause of the base delay
  doubled once per earlier retry. A response, of any status, ends the exchange.
\<close>

fun execute_retry :: "HttpClient \<Rightarrow> nat \<Rightarrow> HttpClientRequest \<Rightarrow> nat \<Rightarrow> nat \<Rightarrow> world
    \<Rightarrow> (string + HttpClientResponse) \<times> world" where
  "execute_retry http delay req 0 n w = attempt http req n w"
| "execute_retry http delay req (Suc k) n w =
     (case attempt http req n w of
        (Inr response, w') \<Rightarrow> (Inr response, w')
      | (Inl error, w') \<Rightarrow>
          execute_retry http delay req k (Suc n) (w'\<lparr>clock := clock w' + int (delay * 2 ^ n)\<rparr>))"

definition execute :: "JMAPClientConfig \<Rightarrow> HttpClient \<Rightarrow> HttpClientRequest \<Rightarrow> world
    \<Rightarrow> (string + HttpClientResponse) \<times> world" where
  "execute config http req w =
     execute_retry http (case retryDelay config of None \<Rightarrow> 1000 | Some d \<Rightarrow> d) req
       (case maxRetries config of None \<Rightarrow> 3 | Some r \<Rightarrow> r) 0 w"

definition defaultHeaders :: "JMAPClientConfig \<Rightarrow> (string \<times> string) list" where
  "defaultHeaders config =
     [(''Content-Type'', ''application/json''),
      (''Authorization'', ''Bearer '' @ bearerToken config),
      (''User-Agent'', (case userAgent config of None \<Rightarrow> ''effect-jmap/0.1.0'' | Some u \<Rightarrow> u))]"

definition timeoutParam :: "JMAPClientConfig \<Rightarrow> (string \<times> nat) list" where
  "timeoutParam config =
     (case timeout config of
        None \<Rightarrow> []
      | Some t \<Rightarrow> if t = 0 then [] else [(''timeout'', t)])"

text \<open>The decimal text of a status code, for \<^verbatim>\<open>`HTTP ${response.status}`\<close>.\<close>

fun digits :: "nat \<Rightarrow> string" where
  "digits n =
     (if n < 10 then [''0123456789'' ! n]
      else digits (n div 10) @ [''0123456789'' ! (n mod 10)])"

declare digits.simps [simp del]

subsection \<open>fetchSession and getSession\<close>

text \<open>
  \<open>logRequest\<close> only writes to the log when \<open>enableRequestLogging\<close> is set; it
  changes no result and is left out. \<^verbatim>\<open>yield* Effect.fail(e)\<close> ends the generator:
  nothing after it runs.
\<close>

definition sessionRequest :: "JMAPClientConfig \<Rightarrow> HttpClientRequest" where
  "sessionRequest config =
     \<lparr>httpMethod = GET, url = sessionUrl config, headers = defaultHeaders config,
      urlParams = timeoutParam config, requestBody = None\<rparr>"

definition fetchSession :: "JMAPClientConfig \<Rightarrow> Decoders \<Rightarrow> HttpClient \<Rightarrow> world
    \<Rightarrow> (failure + Session) \<times> world" where
  "fetchSession config dec http w =
     (let request = sessionRequest config
      in case execute config http request w of
           (Inl error, w1) \<Rightarrow>
             (Inl (Errors_network ''Failed to connect to JMAP server''
                     (Some (HttpClientError error)) None), w1)
         | (Inr response, w1) \<Rightarrow>
             if status response = 401 then
               (Inl (Errors_authentication ''Invalid bearer token'' None), w1)
             else if status response \<noteq> 200 then
               (Inl (Errors_network (''HTTP '' @ digits (status response)) None
                       (Some (status response))), w1)
             else
               (case body response of
                  BodyUnreadable \<Rightarrow>
                    (Inl (Errors_network ''Failed to read response body'' None None), w1)
                | BodyNotJSON \<Rightarrow>
                    (Inl (Errors_network ''Invalid JSON response'' (Some SyntaxError) None), w1)
                | BodyJSON jsonData \<Rightarrow>
                    (case decodeSession dec jsonData of
                       Inl error \<Rightarrow>
                         (Inl (Errors_session ''Invalid session response format''
                                 (Some (ParseFailure error))), w1)
                     | Inr s \<Rightarrow>
                         (Inr s,
                          w1\<lparr>cachedSessionState :=
                                Some \<lparr>session = s, lastUpdated = clock w1\<rparr>\<rparr>))))"

definition getSession :: "JMAPClientConfig \<Rightarrow> Decoders \<Rightarrow> HttpClient \<Rightarrow> world
    \<Rightarrow> (failure + Session) \<times> world" where
  "getSession config dec http w =
     (case cachedSessionState w of
        None \<Rightarrow> fetchSession config dec http w
      | Some st \<Rightarrow>
          (let fiveMinutesAgo = clock w - 5 * 60 * 1000
           in if lastUpdated st < fiveMinutesAgo then fetchSession config dec http w
              else (Inr (session st), w)))"

definition getSessionState :: "JMAPClientConfig \<Rightarrow> Decoders \<Rightarrow> HttpClient \<Rightarrow> world
    \<Rightarrow> (failure + string) \<times> world" where
  "getSessionState config dec http w =
     (case getSession config dec http w of
        (Inl e, w1) \<Rightarrow> (Inl e, w1)
      | (Inr s, w1) \<Rightarrow> (Inr (state s), w1))"

subsection \<open>executeJMAPRequest\<close>

text \<open>
  The scan for method errors: the loop fails at the first response invocation named
  \<open>error\<close>, and ends without a failure when there is none.
\<close>

fun scanMethodErrors :: "MethodResponse list \<Rightarrow> failure option" where
  "scanMethodErrors [] = None"
| "scanMethodErrors ((methodName, result, cid) # rest) =
     (if methodName = ''error'' then Some (failMethod result (Some cid))
      else scanMethodErrors rest)"

definition apiRequest :: "JMAPClientConfig \<Rightarrow> Session \<Rightarrow> Request \<Rightarrow> HttpClientRequest" where
  "apiRequest config s request =
     \<lparr>httpMethod = POST, url = apiUrl s, headers = defaultHeaders config,
      urlParams = timeoutParam config, requestBody = Some request\<rparr>"

definition executeJMAPRequest :: "JMAPClientConfig \<Rightarrow> Decoders \<Rightarrow> HttpClient \<Rightarrow> Request
    \<Rightarrow> world \<Rightarrow> (failure + Response) \<times> world" where
  "executeJMAPRequest config dec http request w =
     (case getSession config dec http w of
        (Inl e, w1) \<Rightarrow> (Inl e, w1)
      | (Inr s, w1) \<Rightarrow>
          (let httpRequest = apiRequest config s request
           in case execute config http httpRequest w1 of
                (Inl error, w2) \<Rightarrow>
                  (Inl (Errors_network ''Failed to send JMAP request''
                          (Some (HttpClientError error)) None), w2)
              | (Inr response, w2) \<Rightarrow>
                  if status response = 401 then
                    (Inl (Errors_authentication ''Bearer token expired or invalid'' None),
                     w2\<lparr>cachedSessionState := None\<rparr>)
                  else if status response \<noteq> 200 then
                    (Inl (Errors_network (''HTTP '' @ digits (status response)) None
                            (Some (status response))), w2)
                  else
                    (case body response of
                       BodyUnreadable \<Rightarrow>
                         (Inl (Errors_network ''Failed to read response body'' None None), w2)
                     | BodyNotJSON \<Rightarrow>
                         (Inl (Errors_network ''Invalid JSON response'' (Some SyntaxError) None),
                          w2)
                     | BodyJSON jsonData \<Rightarrow>
                         (case decodeResponse dec jsonData of
                            Inl error \<Rightarrow>
                              (Inl (Errors_network ''Invalid JMAP response format''
                                      (Some (ParseFailure error)) None), w2)
                          | Inr jmapResponse \<Rightarrow>
                              (case scanMethodErrors (methodResponses jmapResponse) of
                                 Some e \<Rightarrow> (Inl e, w2)
                               | None \<Rightarrow> (Inr jmapResponse, w2))))))"

subsection \<open>batch\<close>

text \<open>
  The client's fourth operation, \<open>request\<close>, makes one exchange and decodes the whole
  envelope with a schema of the caller's; no claim is about it, and it is left out.
\<close>

text \<open>
  \<^verbatim>\<open>methodCalls.slice(start, end)\<close> on integers: a negative index counts from the
  end, and both are clamped to the array.
\<close>

definition slice :: "'a list \<Rightarrow> int \<Rightarrow> int \<Rightarrow> 'a list" where
  "slice xs start stop =
     (let n = int (length xs);
          k = (if start < 0 then max (n + start) 0 else min start n);
          f = (if stop < 0 then max (n + stop) 0 else min stop n)
      in take (nat (f - k)) (drop (nat k) xs))"

text \<open>
  The loop that splits the calls:
  \<^verbatim>\<open>for (let i = 0; i < methodCalls.length; i += maxBatchSize) chunks.push(...)\<close>.
  With a step that is not positive it never ends; \<open>None\<close> is that outcome.
\<close>

partial_function (option) chunkLoop ::
    "int \<Rightarrow> 'a list \<Rightarrow> int \<Rightarrow> 'a list list \<Rightarrow> 'a list list option" where
  "chunkLoop mbs calls i chunks =
     (if i < int (length calls)
      then chunkLoop mbs calls (i + mbs) (chunks @ [slice calls i (i + mbs)])
      else Some chunks)"

declare chunkLoop.simps [code]

text \<open>
  \<^verbatim>\<open>config.maxBatchSize ?? 50\<close>, the default of the parameter \<open>using\<close>, and the
  request built for a list of calls.
\<close>

definition maxBatchSizeOf :: "JMAPClientConfig \<Rightarrow> int" where
  "maxBatchSizeOf config = (case maxBatchSize config of None \<Rightarrow> 50 | Some m \<Rightarrow> m)"

definition usingOf :: "string list option \<Rightarrow> string list" where
  "usingOf usingArg =
     (case usingArg of
        None \<Rightarrow> [''urn:ietf:params:jmap:core'', ''urn:ietf:params:jmap:mail'']
      | Some v \<Rightarrow> v)"

definition requestOf :: "string list \<Rightarrow> Invocation list \<Rightarrow> Request" where
  "requestOf u calls = \<lparr>usingCaps = u, methodCalls = calls, requestCreatedIds = None\<rparr>"

text \<open>
  The loop that sends the chunks one after the other, with its two accumulators
  \<open>allResponses\<close> and \<open>latestSessionState\<close>; a failed exchange ends it.
\<close>

fun chunkExchanges :: "JMAPClientConfig \<Rightarrow> Decoders \<Rightarrow> HttpClient \<Rightarrow> string list
    \<Rightarrow> Invocation list list \<Rightarrow> MethodResponse list \<Rightarrow> string \<Rightarrow> world
    \<Rightarrow> (failure + MethodResponse list \<times> string) \<times> world" where
  "chunkExchanges config dec http u [] allResponses latestSessionState w =
     (Inr (allResponses, latestSessionState), w)"
| "chunkExchanges config dec http u (chunk # rest) allResponses latestSessionState w =
     (case executeJMAPRequest config dec http (requestOf u chunk) w of
        (Inl e, w1) \<Rightarrow> (Inl e, w1)
      | (Inr chunkResponse, w1) \<Rightarrow>
          chunkExchanges config dec http u rest
            (allResponses @ methodResponses chunkResponse) (sessionState chunkResponse) w1)"

definition batch :: "JMAPClientConfig \<Rightarrow> Decoders \<Rightarrow> HttpClient \<Rightarrow> Invocation list
    \<Rightarrow> string list option \<Rightarrow> world \<Rightarrow> ((failure + Response) \<times> world) option" where
  "batch config dec http calls usingArg w =
     (if int (length calls) > maxBatchSizeOf config then
        (case chunkLoop (maxBatchSizeOf config) calls 0 [] of
           None \<Rightarrow> None
         | Some chunks \<Rightarrow>
             Some (case chunkExchanges config dec http (usingOf usingArg) chunks [] [] w of
                     (Inl e, w1) \<Rightarrow> (Inl e, w1)
                   | (Inr (allResponses, latestSessionState), w1) \<Rightarrow>
                       (Inr \<lparr>methodResponses = allResponses, createdIds = None,
                             sessionState = latestSessionState\<rparr>, w1)))
      else
        Some (executeJMAPRequest config dec http (requestOf (usingOf usingArg) calls) w))"

section \<open>Notions the claims are stated with\<close>

text \<open>
  The chunks as the specification describes them: consecutive runs of \<open>m\<close> calls, the
  last one possibly shorter, \<open>ceil (length / m)\<close> of them.
\<close>

definition contiguousChunks :: "nat \<Rightarrow> 'a list \<Rightarrow> 'a list list" where
  "contiguousChunks m xs =
     map (\<lambda>k. take m (drop (k * m) xs)) [0 ..< (length xs + m - 1) div m]"

text \<open>
  The call lists of the exchanges \<open>batch\<close> sets out to make: the chunks of a list
  longer than the batch size, the list itself otherwise.
\<close>

definition batchChunks :: "JMAPClientConfig \<Rightarrow> Invocation list \<Rightarrow> Invocation list list" where
  "batchChunks config calls =
     (if int (length calls) > maxBatchSizeOf config
      then contiguousChunks (nat (maxBatchSizeOf config)) calls
      else [calls])"

text \<open>
  The exchange of every chunk in turn, each in the world its predecessor left, giving
  the chunks' responses in order; it stops at the first exchange that fails.
\<close>

fun chunkResponses :: "JMAPClientConfig \<Rightarrow> Decoders \<Rightarrow> HttpClient \<Rightarrow> string list
    \<Rightarrow> Invocation list list \<Rightarrow> world \<Rightarrow> (failure + Response list) \<times> world" where
  "chunkResponses config dec http u [] w = (Inr [], w)"
| "chunkResponses config dec http u (chunk # rest) w =
     (case executeJMAPRequest config dec http (requestOf u chunk) w of
        (Inl e, w1) \<Rightarrow> (Inl e, w1)
      | (Inr r, w1) \<Rightarrow>
          (case chunkResponses config dec http u rest w1 of
             (Inl e, w2) \<Rightarrow> (Inl e, w2)
           | (Inr rs, w2) \<Rightarrow> (Inr (r # rs), w2)))"

text \<open>
  The worlds in which \<open>getSession\<close> goes to the network: no session is cached, or the
  cached one was last updated before five minutes ago.
\<close>

definition mustFetch :: "world \<Rightarrow> bool" where
  "mustFetch w =
     (case cachedSessionState w of
        None \<Rightarrow> True
      | Some st \<Rightarrow> lastUpdated st < clock w - 5 * 60 * 1000)"

text \<open>
  The API exchanges in a record of attempts: the envelopes of the first attempts that
  carry one (a session fetch carries none, a retry has a positive index).
\<close>

definition exchanges :: "(HttpClientRequest \<times> nat) list \<Rightarrow> Request list" where
  "exchanges tr = List.map_filter (\<lambda>(req, n). if n = 0 then requestBody req else None) tr"

section \<open>Concrete inputs\<close>

text \<open>
  A client configured with a batch size of 2, a session document, the session it
  decodes to, and a world with an empty cache.
\<close>

definition exampleConfig :: JMAPClientConfig where
  "exampleConfig =
     (defaultConfig ''https://jmap.example/session'' ''secret'')\<lparr>maxBatchSize := Some 2\<rparr>"

definition exampleSessionJson :: json where
  "exampleSessionJson =
     JObject [(''capabilities'', JObject []), (''accounts'', JObject []),
              (''primaryAccounts'', JObject []), (''username'', JString ''user''),
              (''apiUrl'', JString ''https://jmap.example/api''),
              (''downloadUrl'', JString ''https://jmap.example/download''),
              (''uploadUrl'', JString ''https://jmap.example/upload''),
              (''eventSourceUrl'', JString ''https://jmap.example/events''),
              (''state'', JString ''st0'')]"

definition exampleSession :: Session where
  "exampleSession =
     \<lparr>capabilities = [], accounts = [], primaryAccounts = [], username = ''user'',
      apiUrl = ''https://jmap.example/api'', downloadUrl = ''https://jmap.example/download'',
      uploadUrl = ''https://jmap.example/upload'',
      eventSourceUrl = ''https://jmap.example/events'', state = ''st0''\<rparr>"

definition emptyWorld :: world where
  "emptyWorld = \<lparr>cachedSessionState = None, clock = 0, sent = []\<rparr>"

text \<open>
  A server that answers the k-th attempt with the k-th entry of a script (and refuses
  the connection once the script is used up), and a server that serves the session
  document and answers every call of a request with an empty result under the same
  name and call id, with a session state that counts the attempts seen. A response is
  sent as the JSON document \<open>encodeResponse\<close> gives.
\<close>

definition scripted :: "((string + HttpClientResponse) \<times> nat) list \<Rightarrow> HttpClient" where
  "scripted script history req =
     (if length history < length script then script ! length history
      else (Inl ''connection refused'', 0))"

definition encodeResponse :: "Response \<Rightarrow> json" where
  "encodeResponse r =
     JObject
       ([(''methodResponses'',
          JArray (map (\<lambda>(nm, p, cid). JArray [JString nm, p, JString cid]) (methodResponses r)))] @
        (case createdIds r of
           None \<Rightarrow> []
         | Some ids \<Rightarrow> [(''createdIds'', JObject (map (\<lambda>(k, v). (k, JString v)) ids))]) @
        [(''sessionState'', JString (sessionState r))])"

definition echoServer :: HttpClient where
  "echoServer history req =
     (case requestBody req of
        None \<Rightarrow> (Inr \<lparr>status = 200, body = BodyJSON exampleSessionJson\<rparr>, 20)
      | Some r \<Rightarrow>
          (Inr \<lparr>status = 200,
                body = BodyJSON (encodeResponse
                  \<lparr>methodResponses = map (\<lambda>(nm, args, cid). (nm, JObject [], cid)) (methodCalls r),
                   createdIds = None,
                   sessionState = ''s'' @ digits (length history)\<rparr>)\<rparr>, 20))"

text \<open>
  Five calls \<open>A\<close> to \<open>E\<close> with call ids 1 to 5, and a world whose cache holds the
  example session, fetched one second ago.
\<close>

definition fiveCalls :: "Invocation list" where
  "fiveCalls =
     [(''A'', JObject [], ''1''), (''B'', JObject [], ''2''), (''C'', JObject [], ''3''),
      (''D'', JObject [], ''4''), (''E'', JObject [], ''5'')]"

definition cachedWorld :: world where
  "cachedWorld =
     \<lparr>cachedSessionState = Some \<lparr>session = exampleSession, lastUpdated = 0\<rparr>,
      clock = 1000, sent = []\<rparr>"

text \<open>
  Answers for scripts: status 200 with a response as its body, and three responses, two
  that carry \<open>createdIds\<close> and one that reports two method errors.
\<close>

definition answer :: "Response \<Rightarrow> (string + HttpClientResponse) \<times> nat" where
  "answer r = (Inr \<lparr>status = 200, body = BodyJSON (encodeResponse r)\<rparr>, 5)"

definition firstResponse :: Response where
  "firstResponse =
     \<lparr>methodResponses = [(''A'', JObject [], ''1''), (''B'', JObject [], ''2'')],
      createdIds = Some [(''k1'', ''id1'')], sessionState = ''alpha''\<rparr>"

definition secondResponse :: Response where
  "secondResponse =
     \<lparr>methodResponses = [(''C'', JObject [], ''3'')],
      createdIds = Some [(''k2'', ''id2'')], sessionState = ''omega''\<rparr>"

definition twoErrors :: Response where
  "twoErrors =
     \<lparr>methodResponses =
        [(''A'', JObject [], ''1''),
         (''error'', JObject [(''type'', JString ''accountNotFound'')], ''2''),
         (''error'', JObject [(''type'', JString ''serverFail'')], ''3'')],
      createdIds = None, sessionState = ''s1''\<rparr>"

section \<open>Response extraction\<close>

lemma find_first:
  "\<forall>x \<in> set before. \<not> P x \<Longrightarrow> P y \<Longrightarrow> find P (before @ y # after) = Some y"
  by (induction before) auto

text \<open>
  Claim C2, as amended. Extraction fails with a method error carrying the call id in
  both cases, and in both its type is \<open>serverFail\<close>: when no response invocation has
  the method name and the call id, the description says that the method response was
  not found; when the first one that has them carries a result that the expected shape
  rejects, the description says that the response format is invalid.
\<close>

theorem extract_failures:
  "((\<forall>(nm, r, i) \<in> set (methodResponses response). \<not> (nm = methodName \<and> i = cid)) \<longrightarrow>
      extractMethodResponse response methodName cid schema =
        Inl (MethodError \<lparr>type = Some (JString ''serverFail''),
               description = Some (JString (''Method response not found for '' @ methodName)),
               details = None, callId = Some cid\<rparr>)) \<and>
   (\<forall>before r after err.
      methodResponses response = before @ (methodName, r, cid) # after \<and>
      (\<forall>(nm, r', i) \<in> set before. \<not> (nm = methodName \<and> i = cid)) \<and>
      schema r = Inl err \<longrightarrow>
      extractMethodResponse response methodName cid schema =
        Inl (MethodError \<lparr>type = Some (JString ''serverFail''),
               description = Some (JString (''Invalid response format: '' @ err)),
               details = None, callId = Some cid\<rparr>))"
proof (intro conjI allI impI)
  assume none: "\<forall>(nm, r, i) \<in> set (methodResponses response). \<not> (nm = methodName \<and> i = cid)"
  have "find (\<lambda>(nm, _, i). nm = methodName \<and> i = cid) (methodResponses response) = None"
    using none by (auto simp: find_None_iff)
  then show "extractMethodResponse response methodName cid schema =
        Inl (MethodError \<lparr>type = Some (JString ''serverFail''),
               description = Some (JString (''Method response not found for '' @ methodName)),
               details = None, callId = Some cid\<rparr>)"
    by (simp add: extractMethodResponse_def truthy_array_def failMethod_def fromMethodError_def
      getProp_def)
next
  fix before r after err
  assume h: "methodResponses response = before @ (methodName, r, cid) # after \<and>
      (\<forall>(nm, r', i) \<in> set before. \<not> (nm = methodName \<and> i = cid)) \<and> schema r = Inl err"
  have "find (\<lambda>(nm, _, i). nm = methodName \<and> i = cid) (before @ (methodName, r, cid) # after)
          = Some (methodName, r, cid)"
    using h by (intro find_first) auto
  then show "extractMethodResponse response methodName cid schema =
        Inl (MethodError \<lparr>type = Some (JString ''serverFail''),
               description = Some (JString (''Invalid response format: '' @ err)),
               details = None, callId = Some cid\<rparr>)"
    using h by (simp add: extractMethodResponse_def truthy_array_def failMethod_def fromMethodError_def
      getProp_def)
qed

text \<open>
  The claim as written asks for an error of the "not found" kind in the first case; the
  type the code gives is \<open>serverFail\<close>.
\<close>

theorem extract_not_found_counterexample:
  "extractMethodResponse
      \<lparr>methodResponses = [(''Email/get'', JObject [], ''c2'')], createdIds = None,
       sessionState = ''s1''\<rparr>
      ''Email/get'' ''c1'' (decodeUnknown Schema_Any) =
     Inl (MethodError \<lparr>type = Some (JString ''serverFail''),
            description = Some (JString ''Method response not found for Email/get''),
            details = None, callId = Some ''c1''\<rparr>) \<and>
   JString ''serverFail'' \<noteq> JString ''notFound''"
  by (simp add: extractMethodResponse_def truthy_array_def failMethod_def fromMethodError_def
      getProp_def)

theorem extract_failures_witness:
  "extractMethodResponse
      \<lparr>methodResponses = [(''Email/get'', JObject [], ''c2'')], createdIds = None,
       sessionState = ''s1''\<rparr>
      ''Email/query'' ''c2'' (decodeUnknown Schema_String) =
     Inl (MethodError \<lparr>type = Some (JString ''serverFail''),
            description = Some (JString ''Method response not found for Email/query''),
            details = None, callId = Some ''c2''\<rparr>) \<and>
   extractMethodResponse
      \<lparr>methodResponses = [(''Email/get'', JObject [], ''c1''), (''Email/get'', JObject [], ''c2'')],
       createdIds = None, sessionState = ''s1''\<rparr>
      ''Email/get'' ''c2'' (decodeUnknown Schema_String) =
     Inl (MethodError \<lparr>type = Some (JString ''serverFail''),
            description = Some (JString ''Invalid response format: ParseError''),
            details = None, callId = Some ''c2''\<rparr>)"
proof -
  let ?r1 = "\<lparr>methodResponses = [(''Email/get'', JObject [], ''c2'')], createdIds = None,
       sessionState = ''s1''\<rparr>"
  let ?r2 = "\<lparr>methodResponses = [(''Email/get'', JObject [], ''c1''), (''Email/get'', JObject [], ''c2'')],
       createdIds = None, sessionState = ''s1''\<rparr>"
  have a: "\<forall>(nm, r, i) \<in> set (methodResponses ?r1). \<not> (nm = ''Email/query'' \<and> i = ''c2'')"
    by simp
  have b: "methodResponses ?r2 = [(''Email/get'', JObject [], ''c1'')] @ (''Email/get'', JObject [], ''c2'') # [] \<and>
      (\<forall>(nm, r', i) \<in> set [(''Email/get'', JObject [], ''c1'')]. \<not> (nm = ''Email/get'' \<and> i = ''c2'')) \<and>
      decodeUnknown Schema_String (JObject []) = Inl ''ParseError''"
    by (simp add: decodeUnknown_def Schema_String_def)
  from extract_failures [of ?r1 "''Email/query''" "''c2''" "decodeUnknown Schema_String"] a
  have 1: "extractMethodResponse ?r1 ''Email/query'' ''c2'' (decodeUnknown Schema_String) =
     Inl (MethodError \<lparr>type = Some (JString ''serverFail''),
            description = Some (JString (''Method response not found for '' @ ''Email/query'')),
            details = None, callId = Some ''c2''\<rparr>)"
    by blast
  from extract_failures [of ?r2 "''Email/get''" "''c2''" "decodeUnknown Schema_String"] b
  have 2: "extractMethodResponse ?r2 ''Email/get'' ''c2'' (decodeUnknown Schema_String) =
     Inl (MethodError \<lparr>type = Some (JString ''serverFail''),
            description = Some (JString (''Invalid response format: '' @ ''ParseError'')),
            details = None, callId = Some ''c2''\<rparr>)"
    by blast
  from 1 2 show ?thesis by simp
qed

section \<open>One HTTP exchange\<close>

lemma attempt_world:
  "attempt http req n w = (out, w') \<Longrightarrow>
     sent w' = sent w @ [(req, n)] \<and> cachedSessionState w' = cachedSessionState w \<and>
     clock w \<le> clock w'"
  by (auto simp: attempt_def split: prod.splits)

lemma execute_retry_response_first:
  "attempt http req n w = (Inr response, w') \<Longrightarrow>
     execute_retry http delay req k n w = (Inr response, w')"
  by (cases k) simp_all

lemma execute_retry_world:
  "execute_retry http delay req k n w = (out, w') \<Longrightarrow>
     (\<exists>j. 0 < j \<and> j \<le> Suc k \<and> sent w' = sent w @ map (\<lambda>i. (req, i)) [n ..< n + j]) \<and>
     cachedSessionState w' = cachedSessionState w \<and> clock w \<le> clock w'"
proof (induction k arbitrary: n w)
  case 0
  then have "sent w' = sent w @ [(req, n)] \<and> cachedSessionState w' = cachedSessionState w \<and>
     clock w \<le> clock w'"
    using attempt_world [of http req n w out w'] by simp
  then show ?case by (auto intro!: exI [of _ 1])
next
  case (Suc k)
  obtain o1 w1 where a: "attempt http req n w = (o1, w1)" by (cases "attempt http req n w")
  note aw = attempt_world [OF a]
  show ?case
  proof (cases o1)
    case (Inr response)
    with Suc.prems a have "w' = w1" by simp
    with aw show ?thesis by (auto intro!: exI [of _ 1])
  next
    case (Inl error)
    let ?w2 = "w1\<lparr>clock := clock w1 + int (delay * 2 ^ n)\<rparr>"
    from Inl Suc.prems a have r: "execute_retry http delay req k (Suc n) ?w2 = (out, w')" by simp
    from Suc.IH [OF r] obtain j where j: "0 < j" "j \<le> Suc k"
      "sent w' = sent ?w2 @ map (\<lambda>i. (req, i)) [Suc n ..< Suc n + j]"
      and rest: "cachedSessionState w' = cachedSessionState ?w2" "clock ?w2 \<le> clock w'"
      by blast
    have "sent w' = sent w @ map (\<lambda>i. (req, i)) [n ..< n + Suc j]"
      using j(3) aw by (simp add: upt_conv_Cons)
    moreover have "0 < Suc j" "Suc j \<le> Suc (Suc k)" using j by simp_all
    moreover have "cachedSessionState w' = cachedSessionState w" using rest aw by simp
    moreover have "clock w \<le> clock w'"
    proof -
      have p: "(0::int) \<le> int (delay * 2 ^ n)" by simp
      have "clock w1 + int (delay * 2 ^ n) \<le> clock w'" using rest(2) by simp
      with p aw show ?thesis by linarith
    qed
    ultimately show ?thesis by blast
  qed
qed

lemma execute_retry_last_attempt:
  "execute_retry http delay req k n w = (Inr response, w') \<Longrightarrow>
     \<exists>w0 i. attempt http req i w0 = (Inr response, w')"
proof (induction k arbitrary: n w)
  case 0
  then show ?case by auto
next
  case (Suc k)
  obtain o1 w1 where a: "attempt http req n w = (o1, w1)" by (cases "attempt http req n w")
  show ?case
  proof (cases o1)
    case (Inr r)
    with Suc.prems a show ?thesis by auto
  next
    case (Inl error)
    with Suc.prems a Suc.IH show ?thesis by auto
  qed
qed

lemma execute_world:
  "execute config http req w = (out, w') \<Longrightarrow>
     (\<exists>j. 0 < j \<and> sent w' = sent w @ map (\<lambda>i. (req, i)) [0 ..< j]) \<and>
     cachedSessionState w' = cachedSessionState w \<and> clock w \<le> clock w'"
  unfolding execute_def using execute_retry_world [of http _ req _ 0 w out w'] by auto

lemma execute_response_first:
  "attempt http req 0 w = (Inr response, w') \<Longrightarrow> execute config http req w = (Inr response, w')"
  unfolding execute_def by (rule execute_retry_response_first)

lemma execute_last_attempt:
  "execute config http req w = (Inr response, w') \<Longrightarrow>
     \<exists>w0 i. attempt http req i w0 = (Inr response, w')"
  unfolding execute_def by (rule execute_retry_last_attempt)

lemma exchanges_append: "exchanges (xs @ ys) = exchanges xs @ exchanges ys"
  by (simp add: exchanges_def map_filter_def)

lemma exchanges_attempts:
  "0 < j \<Longrightarrow> exchanges (map (\<lambda>i. (req, i)) [0 ..< j]) =
     (case requestBody req of None \<Rightarrow> [] | Some b \<Rightarrow> [b])"
proof -
  assume "0 < j"
  then have "[0 ..< j] = 0 # [1 ..< j]" by (simp add: upt_conv_Cons)
  moreover have "exchanges (map (\<lambda>i. (req, i)) [1 ..< j]) = []"
    by (simp add: exchanges_def map_filter_def filter_empty_conv)
  ultimately show ?thesis
    using exchanges_append [of "[(req, 0)]" "map (\<lambda>i. (req, i)) [1 ..< j]"]
    by (simp add: exchanges_def map_filter_def split: option.splits)
qed

lemma execute_exchanges:
  "execute config http req w = (out, w') \<Longrightarrow>
     exchanges (sent w') = exchanges (sent w) @ (case requestBody req of None \<Rightarrow> [] | Some b \<Rightarrow> [b])"
  using execute_world [of config http req w out w'] exchanges_attempts [of _ req]
  by (auto simp: exchanges_append)

section \<open>The session cache\<close>

lemma fetchSession_failure:
  "fetchSession config dec http w = (Inl e, w') \<Longrightarrow>
     cachedSessionState w' = cachedSessionState w \<and>
     (\<exists>out. execute config http (sessionRequest config) w = (out, w'))"
  using execute_world [of config http "sessionRequest config" w]
  by (auto simp: fetchSession_def Let_def
      split: prod.splits sum.splits if_splits http_body.splits)

lemma fetchSession_success:
  "fetchSession config dec http w = (Inr s, w') \<Longrightarrow>
     \<exists>response j w1. execute config http (sessionRequest config) w = (Inr response, w1) \<and>
       status response = 200 \<and> body response = BodyJSON j \<and> decodeSession dec j = Inr s \<and>
       w' = w1\<lparr>cachedSessionState := Some \<lparr>session = s, lastUpdated = clock w1\<rparr>\<rparr>"
  by (auto simp: fetchSession_def Let_def Errors_network_def
      Errors_authentication_def Errors_session_def
      split: prod.splits sum.splits if_splits http_body.splits option.splits)

lemma fetchSession_sent:
  "fetchSession config dec http w = (res, w') \<Longrightarrow>
     \<exists>j. 0 < j \<and> sent w' = sent w @ map (\<lambda>i. (sessionRequest config, i)) [0 ..< j]"
proof (cases res)
  case (Inl e)
  assume "fetchSession config dec http w = (res, w')"
  with Inl fetchSession_failure [of config dec http w e w'] execute_world show ?thesis by blast
next
  case (Inr s)
  assume "fetchSession config dec http w = (res, w')"
  with Inr fetchSession_success [of config dec http w s w'] 
  obtain response w1 where "execute config http (sessionRequest config) w = (Inr response, w1)"
    and "sent w' = sent w1" by auto
  with execute_world [of config http "sessionRequest config" w "Inr response" w1]
  show ?thesis by auto
qed

lemma fetchSession_unauthorized:
  "execute config http (sessionRequest config) w = (Inr response, w1) \<Longrightarrow>
   status response = 401 \<Longrightarrow>
     fetchSession config dec http w = (Inl (AuthenticationError ''Invalid bearer token'' None), w1)"
  by (simp add: fetchSession_def Let_def Errors_authentication_def)

lemma fetchSession_not_json:
  "execute config http (sessionRequest config) w = (Inr response, w1) \<Longrightarrow>
   status response = 200 \<Longrightarrow> body response = BodyNotJSON \<Longrightarrow>
     fetchSession config dec http w =
       (Inl (NetworkError ''Invalid JSON response'' (Some SyntaxError) None), w1)"
  by (simp add: fetchSession_def Let_def Errors_network_def)

lemma fetchSession_wrong_shape:
  "execute config http (sessionRequest config) w = (Inr response, w1) \<Longrightarrow>
   status response = 200 \<Longrightarrow> body response = BodyJSON j \<Longrightarrow>
   decodeSession dec j = Inl err \<Longrightarrow>
     fetchSession config dec http w =
       (Inl (SessionError ''Invalid session response format'' (Some (ParseFailure err))), w1)"
  by (simp add: fetchSession_def Let_def Errors_session_def)

lemma Session_schema_needs_apiUrl:
  "map_of fs ''apiUrl'' = None \<Longrightarrow> Session_schema (JObject fs) = None"
  by (auto simp: Session_schema_def required_def split: Option.bind_splits)

lemma getSession_fetches:
  "mustFetch w \<Longrightarrow> getSession config dec http w = fetchSession config dec http w"
  by (auto simp: mustFetch_def getSession_def Let_def split: option.splits)

lemma getSession_cached:
  "cachedSessionState w = Some st \<Longrightarrow> clock w - lastUpdated st \<le> 5 * 60 * 1000 \<Longrightarrow>
     getSession config dec http w = (Inr (session st), w)"
  by (simp add: getSession_def Let_def)

lemma mustFetch_iff:
  "mustFetch w \<longleftrightarrow>
     (cachedSessionState w = None \<or>
      (\<exists>st. cachedSessionState w = Some st \<and> clock w - lastUpdated st > 5 * 60 * 1000))"
  by (auto simp: mustFetch_def split: option.splits)

lemma getSession_exchanges:
  "getSession config dec http w = (res, w') \<Longrightarrow> exchanges (sent w') = exchanges (sent w)"
proof (cases "mustFetch w")
  case True
  assume g: "getSession config dec http w = (res, w')"
  with True have "fetchSession config dec http w = (res, w')" by (simp add: getSession_fetches)
  from fetchSession_sent [OF this] obtain j where "0 < j"
    "sent w' = sent w @ map (\<lambda>i. (sessionRequest config, i)) [0 ..< j]" by blast
  then show ?thesis
    using exchanges_attempts [of j "sessionRequest config"]
    by (simp add: exchanges_append sessionRequest_def)
next
  case False
  assume g: "getSession config dec http w = (res, w')"
  with False have "w' = w"
    by (auto simp: mustFetch_def getSession_def Let_def split: option.splits if_splits)
  then show ?thesis by simp
qed

text \<open>
  Claim C4, as amended. \<open>getSession\<close> returns the cached session, sending nothing and
  changing nothing, when a session is cached and its age \<open>now - lastUpdated\<close> is at
  most five minutes, the bound included. When nothing is cached or the age is more than
  five minutes it is a session fetch: at least one request goes to the session URL, and
  a session it returns is the one decoded from the response to that fetch, cached with
  the time of its arrival.
\<close>

theorem getSession_freshness:
  "(\<forall>st. cachedSessionState w = Some st \<and> clock w - lastUpdated st \<le> 5 * 60 * 1000 \<longrightarrow>
      getSession config dec http w = (Inr (session st), w)) \<and>
   (cachedSessionState w = None \<or>
    (\<exists>st. cachedSessionState w = Some st \<and> clock w - lastUpdated st > 5 * 60 * 1000) \<longrightarrow>
      getSession config dec http w = fetchSession config dec http w \<and>
      (\<exists>j. 0 < j \<and>
         sent (snd (getSession config dec http w)) =
           sent w @ map (\<lambda>i. (sessionRequest config, i)) [0 ..< j]) \<and>
      (\<forall>s w'. getSession config dec http w = (Inr s, w') \<longrightarrow>
         (\<exists>response j w1.
            execute config http (sessionRequest config) w = (Inr response, w1) \<and>
            status response = 200 \<and> body response = BodyJSON j \<and> decodeSession dec j = Inr s \<and>
            w' = w1\<lparr>cachedSessionState := Some \<lparr>session = s, lastUpdated = clock w1\<rparr>\<rparr>)))"
proof (intro conjI allI impI)
  fix st
  assume "cachedSessionState w = Some st \<and> clock w - lastUpdated st \<le> 5 * 60 * 1000"
  then show "getSession config dec http w = (Inr (session st), w)"
    by (simp add: getSession_cached)
next
  assume "cachedSessionState w = None \<or>
    (\<exists>st. cachedSessionState w = Some st \<and> clock w - lastUpdated st > 5 * 60 * 1000)"
  then have m: "mustFetch w" by (simp add: mustFetch_iff)
  then show eq: "getSession config dec http w = fetchSession config dec http w"
    by (rule getSession_fetches)
  show "\<exists>j. 0 < j \<and> sent (snd (getSession config dec http w)) =
           sent w @ map (\<lambda>i. (sessionRequest config, i)) [0 ..< j]"
    using fetchSession_sent [of config dec http w "fst (fetchSession config dec http w)"
        "snd (fetchSession config dec http w)"] eq by simp
  fix s w'
  assume "getSession config dec http w = (Inr s, w')"
  with eq have "fetchSession config dec http w = (Inr s, w')" by simp
  then show "\<exists>response j w1.
            execute config http (sessionRequest config) w = (Inr response, w1) \<and>
            status response = 200 \<and> body response = BodyJSON j \<and> decodeSession dec j = Inr s \<and>
            w' = w1\<lparr>cachedSessionState := Some \<lparr>session = s, lastUpdated = clock w1\<rparr>\<rparr>"
    by (rule fetchSession_success)
qed

lemma example_session_decodes: "Session_schema exampleSessionJson = Some exampleSession"
  by (simp add: Session_schema_def exampleSessionJson_def exampleSession_def required_def
      Schema_Record_def Schema_String_def)

lemma example_session_decoder:
  "decodeSession typesDecoders exampleSessionJson = Inr exampleSession"
  by (simp add: typesDecoders_def decodeUnknown_def example_session_decodes)

lemma emptyWorld_mustFetch: "mustFetch emptyWorld"
  by (simp add: mustFetch_def emptyWorld_def)

text \<open>
  The claim as written calls a session fresh when \<open>now - lastUpdated < 5 minutes\<close> and
  asks for a fetch at an age of five minutes or more. At an age of exactly 300000 ms the
  cached session is returned and nothing is sent: the code refreshes a session that is
  older than five minutes, as its comment says.
\<close>

theorem getSession_boundary_counterexample:
  "getSession exampleConfig typesDecoders echoServer
      \<lparr>cachedSessionState = Some \<lparr>session = exampleSession, lastUpdated = 1000\<rparr>,
       clock = 301000, sent = []\<rparr> =
     (Inr exampleSession,
      \<lparr>cachedSessionState = Some \<lparr>session = exampleSession, lastUpdated = 1000\<rparr>,
       clock = 301000, sent = []\<rparr>) \<and>
   \<not> ((301000::int) - 1000 < 5 * 60 * 1000)"
  by (simp add: getSession_def)

theorem getSession_freshness_witness:
  "getSession exampleConfig typesDecoders echoServer
      \<lparr>cachedSessionState = Some \<lparr>session = exampleSession, lastUpdated = 1000\<rparr>,
       clock = 300999, sent = []\<rparr> =
     (Inr exampleSession,
      \<lparr>cachedSessionState = Some \<lparr>session = exampleSession, lastUpdated = 1000\<rparr>,
       clock = 300999, sent = []\<rparr>) \<and>
   getSession exampleConfig typesDecoders echoServer
      \<lparr>cachedSessionState = Some \<lparr>session = exampleSession\<lparr>state := ''old''\<rparr>, lastUpdated = 1000\<rparr>,
       clock = 301001, sent = []\<rparr> =
     (Inr exampleSession,
      \<lparr>cachedSessionState = Some \<lparr>session = exampleSession, lastUpdated = 301021\<rparr>,
       clock = 301021, sent = [(sessionRequest exampleConfig, 0)]\<rparr>)"
proof -
  let ?w1 = "\<lparr>cachedSessionState = Some \<lparr>session = exampleSession, lastUpdated = 1000\<rparr>,
       clock = 300999, sent = []\<rparr>"
  let ?w2 = "\<lparr>cachedSessionState = Some \<lparr>session = exampleSession\<lparr>state := ''old''\<rparr>, lastUpdated = 1000\<rparr>,
       clock = 301001, sent = []\<rparr>"
  have h1: "cachedSessionState ?w1 = Some \<lparr>session = exampleSession, lastUpdated = 1000\<rparr> \<and>
      clock ?w1 - lastUpdated \<lparr>session = exampleSession, lastUpdated = 1000\<rparr> \<le> 5 * 60 * 1000"
    by simp
  have a: "getSession exampleConfig typesDecoders echoServer ?w1 = (Inr exampleSession, ?w1)"
    using getSession_freshness [of ?w1 exampleConfig typesDecoders echoServer] h1 by fastforce
  have h2: "cachedSessionState ?w2 = None \<or>
      (\<exists>st. cachedSessionState ?w2 = Some st \<and> clock ?w2 - lastUpdated st > 5 * 60 * 1000)"
    by simp
  have "getSession exampleConfig typesDecoders echoServer ?w2 = fetchSession exampleConfig typesDecoders echoServer ?w2"
    using getSession_freshness [of ?w2 exampleConfig typesDecoders echoServer] h2 by blast
  moreover have "attempt echoServer (sessionRequest exampleConfig) 0 ?w2 =
      (Inr \<lparr>status = 200, body = BodyJSON exampleSessionJson\<rparr>,
       ?w2\<lparr>clock := 301021, sent := [(sessionRequest exampleConfig, 0)]\<rparr>)"
    by (simp add: attempt_def echoServer_def sessionRequest_def)
  then have "fetchSession exampleConfig typesDecoders echoServer ?w2 =
      (Inr exampleSession,
      \<lparr>cachedSessionState = Some \<lparr>session = exampleSession, lastUpdated = 301021\<rparr>,
       clock = 301021, sent = [(sessionRequest exampleConfig, 0)]\<rparr>)"
    by (simp add: fetchSession_def Let_def execute_response_first example_session_decoder)
  ultimately show ?thesis using a by simp
qed

text \<open>
  Claim C7. When \<open>getSession\<close> fetches and the session endpoint answers 401, it
  fails with an authentication error in the world that the answered attempt left:
  nothing is sent after it, and the cache is as it was. When the first attempt is the
  one answered 401, that single request is all that was sent. Whatever \<open>getSession\<close>
  does, the cache changes only when a fetch got status 200 with a body that is JSON and
  decodes as a Session, and then to that session.
\<close>

theorem getSession_unauthorized:
  "(\<forall>response w1.
      mustFetch w \<and> execute config http (sessionRequest config) w = (Inr response, w1) \<and>
      status response = 401 \<longrightarrow>
        getSession config dec http w =
          (Inl (AuthenticationError ''Invalid bearer token'' None), w1) \<and>
        cachedSessionState w1 = cachedSessionState w \<and>
        (\<exists>w0 i. attempt http (sessionRequest config) i w0 = (Inr response, w1))) \<and>
   (\<forall>response elapsed.
      mustFetch w \<and> http (sent w) (sessionRequest config) = (Inr response, elapsed) \<and>
      status response = 401 \<longrightarrow>
        getSession config dec http w =
          (Inl (AuthenticationError ''Invalid bearer token'' None),
           w\<lparr>clock := clock w + int elapsed, sent := sent w @ [(sessionRequest config, 0)]\<rparr>)) \<and>
   (\<forall>res w'.
      getSession config dec http w = (res, w') \<longrightarrow>
        cachedSessionState w' = cachedSessionState w \<or>
        (\<exists>s response j w1.
           res = Inr s \<and> execute config http (sessionRequest config) w = (Inr response, w1) \<and>
           status response = 200 \<and> body response = BodyJSON j \<and> decodeSession dec j = Inr s \<and>
           w' = w1\<lparr>cachedSessionState := Some \<lparr>session = s, lastUpdated = clock w1\<rparr>\<rparr>))"
proof (intro conjI allI impI)
  fix response w1
  assume h: "mustFetch w \<and> execute config http (sessionRequest config) w = (Inr response, w1) \<and>
      status response = 401"
  then show "getSession config dec http w =
          (Inl (AuthenticationError ''Invalid bearer token'' None), w1)"
    by (simp add: getSession_fetches fetchSession_unauthorized)
  from h show "cachedSessionState w1 = cachedSessionState w"
    using execute_world by blast
  from h show "\<exists>w0 i. attempt http (sessionRequest config) i w0 = (Inr response, w1)"
    using execute_last_attempt by blast
next
  fix response elapsed
  assume h: "mustFetch w \<and> http (sent w) (sessionRequest config) = (Inr response, elapsed) \<and>
      status response = 401"
  let ?w1 = "w\<lparr>clock := clock w + int elapsed, sent := sent w @ [(sessionRequest config, 0)]\<rparr>"
  from h have "attempt http (sessionRequest config) 0 w = (Inr response, ?w1)"
    by (simp add: attempt_def)
  then have "execute config http (sessionRequest config) w = (Inr response, ?w1)"
    by (rule execute_response_first)
  with h show "getSession config dec http w =
          (Inl (AuthenticationError ''Invalid bearer token'' None), ?w1)"
    by (simp add: getSession_fetches fetchSession_unauthorized)
next
  fix res w'
  assume g: "getSession config dec http w = (res, w')"
  show "cachedSessionState w' = cachedSessionState w \<or>
        (\<exists>s response j w1.
           res = Inr s \<and> execute config http (sessionRequest config) w = (Inr response, w1) \<and>
           status response = 200 \<and> body response = BodyJSON j \<and> decodeSession dec j = Inr s \<and>
           w' = w1\<lparr>cachedSessionState := Some \<lparr>session = s, lastUpdated = clock w1\<rparr>\<rparr>)"
  proof (cases "mustFetch w")
    case False
    with g have "w' = w"
      by (auto simp: mustFetch_def getSession_def Let_def split: option.splits if_splits)
    then show ?thesis by simp
  next
    case True
    with g have f: "fetchSession config dec http w = (res, w')" by (simp add: getSession_fetches)
    show ?thesis
    proof (cases res)
      case (Inl e)
      with f fetchSession_failure show ?thesis by blast
    next
      case (Inr s)
      with f fetchSession_success [of config dec http w s w'] show ?thesis by blast
    qed
  qed
qed

theorem getSession_unauthorized_witness:
  "getSession exampleConfig typesDecoders
      (scripted [(Inl ''timeout'', 30000), (Inr \<lparr>status = 401, body = BodyUnreadable\<rparr>, 7)])
      emptyWorld =
     (Inl (AuthenticationError ''Invalid bearer token'' None),
      \<lparr>cachedSessionState = None, clock = 31007,
       sent = [(sessionRequest exampleConfig, 0), (sessionRequest exampleConfig, 1)]\<rparr>) \<and>
   getSession exampleConfig typesDecoders (scripted [(Inr \<lparr>status = 401, body = BodyUnreadable\<rparr>, 7)])
      emptyWorld =
     (Inl (AuthenticationError ''Invalid bearer token'' None),
      \<lparr>cachedSessionState = None, clock = 7, sent = [(sessionRequest exampleConfig, 0)]\<rparr>)"
proof -
  let ?http1 = "scripted [(Inl ''timeout'', 30000), (Inr \<lparr>status = 401, body = BodyUnreadable\<rparr>, 7)]"
  let ?http2 = "scripted [(Inr \<lparr>status = 401, body = BodyUnreadable\<rparr>, 7)]"
  let ?w1 = "\<lparr>cachedSessionState = None, clock = 31007,
       sent = [(sessionRequest exampleConfig, 0), (sessionRequest exampleConfig, 1)]\<rparr>"
  have e: "execute exampleConfig ?http1 (sessionRequest exampleConfig) emptyWorld =
      (Inr \<lparr>status = 401, body = BodyUnreadable\<rparr>, ?w1)"
    by (simp add: execute_def exampleConfig_def defaultConfig_def numeral_3_eq_3 attempt_def
        scripted_def emptyWorld_def)
  have 1: "getSession exampleConfig typesDecoders ?http1 emptyWorld =
      (Inl (AuthenticationError ''Invalid bearer token'' None), ?w1)"
    using getSession_unauthorized [of emptyWorld exampleConfig ?http1 typesDecoders] e emptyWorld_mustFetch
    by fastforce
  have h: "?http2 (sent emptyWorld) (sessionRequest exampleConfig) =
      (Inr \<lparr>status = 401, body = BodyUnreadable\<rparr>, 7)"
    by (simp add: scripted_def emptyWorld_def)
  have 2: "getSession exampleConfig typesDecoders ?http2 emptyWorld =
      (Inl (AuthenticationError ''Invalid bearer token'' None),
       emptyWorld\<lparr>clock := clock emptyWorld + int 7,
         sent := sent emptyWorld @ [(sessionRequest exampleConfig, 0)]\<rparr>)"
    using getSession_unauthorized [of emptyWorld exampleConfig ?http2 typesDecoders] h emptyWorld_mustFetch
    by fastforce
  from 1 2 show ?thesis by (simp add: emptyWorld_def)
qed

text \<open>
  Claim C8. When the session endpoint answers 200: a body that is not JSON makes
  \<open>getSession\<close> fail with a network error, and a body that is JSON but does not
  decode as a Session makes it fail with a session error; an object without the
  property \<open>apiUrl\<close> is such a body.
\<close>

theorem session_body_errors:
  "(\<forall>response w1.
      mustFetch w \<and> execute config http (sessionRequest config) w = (Inr response, w1) \<and>
      status response = 200 \<and> body response = BodyNotJSON \<longrightarrow>
        getSession config dec http w =
          (Inl (NetworkError ''Invalid JSON response'' (Some SyntaxError) None), w1)) \<and>
   (\<forall>response w1 j err.
      mustFetch w \<and> execute config http (sessionRequest config) w = (Inr response, w1) \<and>
      status response = 200 \<and> body response = BodyJSON j \<and> decodeSession dec j = Inl err \<longrightarrow>
        getSession config dec http w =
          (Inl (SessionError ''Invalid session response format'' (Some (ParseFailure err))),
           w1)) \<and>
   (\<forall>fs. map_of fs ''apiUrl'' = None \<longrightarrow>
      decodeSession typesDecoders (JObject fs) = Inl ''ParseError'')"
proof (intro conjI allI impI)
  fix response w1
  assume "mustFetch w \<and> execute config http (sessionRequest config) w = (Inr response, w1) \<and>
      status response = 200 \<and> body response = BodyNotJSON"
  then show "getSession config dec http w =
          (Inl (NetworkError ''Invalid JSON response'' (Some SyntaxError) None), w1)"
    by (simp add: getSession_fetches fetchSession_not_json)
next
  fix response w1 j err
  assume "mustFetch w \<and> execute config http (sessionRequest config) w = (Inr response, w1) \<and>
      status response = 200 \<and> body response = BodyJSON j \<and> decodeSession dec j = Inl err"
  then show "getSession config dec http w =
          (Inl (SessionError ''Invalid session response format'' (Some (ParseFailure err))), w1)"
    by (simp add: getSession_fetches fetchSession_wrong_shape)
next
  fix fs :: "(string \<times> json) list"
  assume "map_of fs ''apiUrl'' = None"
  then show "decodeSession typesDecoders (JObject fs) = Inl ''ParseError''"
    by (simp add: typesDecoders_def decodeUnknown_def Session_schema_needs_apiUrl)
qed

theorem session_body_errors_witness:
  "getSession exampleConfig typesDecoders
      (scripted [(Inr \<lparr>status = 200, body = BodyNotJSON\<rparr>, 7)]) emptyWorld =
     (Inl (NetworkError ''Invalid JSON response'' (Some SyntaxError) None),
      \<lparr>cachedSessionState = None, clock = 7, sent = [(sessionRequest exampleConfig, 0)]\<rparr>) \<and>
   getSession exampleConfig typesDecoders
      (scripted [(Inr \<lparr>status = 200,
                       body = BodyJSON (JObject [(''capabilities'', JObject []),
                                (''accounts'', JObject []), (''primaryAccounts'', JObject []),
                                (''username'', JString ''user''),
                                (''downloadUrl'', JString ''https://jmap.example/download''),
                                (''uploadUrl'', JString ''https://jmap.example/upload''),
                                (''eventSourceUrl'', JString ''https://jmap.example/events''),
                                (''state'', JString ''st0'')])\<rparr>, 7)])
      emptyWorld =
     (Inl (SessionError ''Invalid session response format'' (Some (ParseFailure ''ParseError''))),
      \<lparr>cachedSessionState = None, clock = 7, sent = [(sessionRequest exampleConfig, 0)]\<rparr>)"
proof -
  let ?fs = "[(''capabilities'', JObject []),
                                (''accounts'', JObject []), (''primaryAccounts'', JObject []),
                                (''username'', JString ''user''),
                                (''downloadUrl'', JString ''https://jmap.example/download''),
                                (''uploadUrl'', JString ''https://jmap.example/upload''),
                                (''eventSourceUrl'', JString ''https://jmap.example/events''),
                                (''state'', JString ''st0'')]"
  let ?r1 = "\<lparr>status = 200, body = BodyNotJSON\<rparr>"
  let ?r2 = "\<lparr>status = 200, body = BodyJSON (JObject ?fs)\<rparr>"
  let ?w1 = "\<lparr>cachedSessionState = None, clock = 7, sent = [(sessionRequest exampleConfig, 0)]\<rparr>"
  note inst = session_body_errors [of emptyWorld exampleConfig _ typesDecoders]
  have "attempt (scripted [(Inr ?r1, 7)]) (sessionRequest exampleConfig) 0 emptyWorld = (Inr ?r1, ?w1)"
    by (simp add: attempt_def scripted_def emptyWorld_def)
  then have e1: "execute exampleConfig (scripted [(Inr ?r1, 7)]) (sessionRequest exampleConfig)
      emptyWorld = (Inr ?r1, ?w1)"
    by (rule execute_response_first)
  have "attempt (scripted [(Inr ?r2, 7)]) (sessionRequest exampleConfig) 0 emptyWorld = (Inr ?r2, ?w1)"
    by (simp add: attempt_def scripted_def emptyWorld_def)
  then have e2: "execute exampleConfig (scripted [(Inr ?r2, 7)]) (sessionRequest exampleConfig)
      emptyWorld = (Inr ?r2, ?w1)"
    by (rule execute_response_first)
  have m: "map_of ?fs ''apiUrl'' = None" by simp
  have s: "decodeSession typesDecoders (JObject ?fs) = Inl ''ParseError''"
    using inst [of "scripted [(Inr ?r1, 7)]"] m by blast
  have 1: "getSession exampleConfig typesDecoders (scripted [(Inr ?r1, 7)]) emptyWorld =
     (Inl (NetworkError ''Invalid JSON response'' (Some SyntaxError) None), ?w1)"
    using inst [of "scripted [(Inr ?r1, 7)]"] e1 emptyWorld_mustFetch by fastforce
  have 2: "getSession exampleConfig typesDecoders (scripted [(Inr ?r2, 7)]) emptyWorld =
     (Inl (SessionError ''Invalid session response format'' (Some (ParseFailure ''ParseError''))), ?w1)"
    using inst [of "scripted [(Inr ?r2, 7)]"] e2 emptyWorld_mustFetch s by fastforce
  from 1 2 show ?thesis by simp
qed

section \<open>One API exchange\<close>

lemma executeJMAPRequest_session_failure:
  "getSession config dec http w = (Inl e, w1) \<Longrightarrow>
     executeJMAPRequest config dec http request w = (Inl e, w1)"
  by (simp add: executeJMAPRequest_def)

lemma executeJMAPRequest_unauthorized:
  "getSession config dec http w = (Inr s, w1) \<Longrightarrow>
   execute config http (apiRequest config s request) w1 = (Inr response, w2) \<Longrightarrow>
   status response = 401 \<Longrightarrow>
     executeJMAPRequest config dec http request w =
       (Inl (AuthenticationError ''Bearer token expired or invalid'' None),
        w2\<lparr>cachedSessionState := None\<rparr>)"
  by (simp add: executeJMAPRequest_def Let_def Errors_authentication_def)

lemma executeJMAPRequest_decoded:
  "getSession config dec http w = (Inr s, w1) \<Longrightarrow>
   execute config http (apiRequest config s request) w1 = (Inr response, w2) \<Longrightarrow>
   status response = 200 \<Longrightarrow> body response = BodyJSON j \<Longrightarrow> decodeResponse dec j = Inr r \<Longrightarrow>
     executeJMAPRequest config dec http request w =
       (case scanMethodErrors (methodResponses r) of
          Some e \<Rightarrow> (Inl e, w2)
        | None \<Rightarrow> (Inr r, w2))"
  by (simp add: executeJMAPRequest_def Let_def)

lemma executeJMAPRequest_success:
  "executeJMAPRequest config dec http request w = (Inr r, w') \<Longrightarrow>
     \<exists>s w1 response j.
       getSession config dec http w = (Inr s, w1) \<and>
       execute config http (apiRequest config s request) w1 = (Inr response, w') \<and>
       status response = 200 \<and> body response = BodyJSON j \<and> decodeResponse dec j = Inr r \<and>
       scanMethodErrors (methodResponses r) = None"
  by (auto simp: executeJMAPRequest_def Let_def
      split: prod.splits sum.splits if_splits http_body.splits option.splits)

lemma executeJMAPRequest_failure_exchanges:
  "executeJMAPRequest config dec http request w = (Inl e, w') \<Longrightarrow>
     exchanges (sent w') = exchanges (sent w) \<or>
     exchanges (sent w') = exchanges (sent w) @ [request]"
proof -
  assume x: "executeJMAPRequest config dec http request w = (Inl e, w')"
  obtain g w1 where g: "getSession config dec http w = (g, w1)" by (cases "getSession config dec http w")
  note ge = getSession_exchanges [OF g]
  show ?thesis
  proof (cases g)
    case (Inl e1)
    with x g have "w' = w1" by (simp add: executeJMAPRequest_def)
    with ge show ?thesis by simp
  next
    case (Inr s)
    obtain out w2 where ex: "execute config http (apiRequest config s request) w1 = (out, w2)"
      by (cases "execute config http (apiRequest config s request) w1")
    from execute_exchanges [OF ex]
    have e2: "exchanges (sent w2) = exchanges (sent w1) @ [request]"
      by (simp add: apiRequest_def)
    from x g Inr ex have "sent w' = sent w2"
      by (auto simp: executeJMAPRequest_def Let_def
          split: sum.splits if_splits http_body.splits option.splits)
    with e2 ge show ?thesis by simp
  qed
qed

lemma executeJMAPRequest_success_exchanges:
  "executeJMAPRequest config dec http request w = (Inr r, w') \<Longrightarrow>
     exchanges (sent w') = exchanges (sent w) @ [request]"
proof -
  assume "executeJMAPRequest config dec http request w = (Inr r, w')"
  from executeJMAPRequest_success [OF this] obtain s w1 response where
    g: "getSession config dec http w = (Inr s, w1)" and
    e: "execute config http (apiRequest config s request) w1 = (Inr response, w')" by blast
  from execute_exchanges [OF e] getSession_exchanges [OF g]
  show ?thesis by (simp add: apiRequest_def)
qed

lemma scanMethodErrors_None:
  "scanMethodErrors rs = None \<longleftrightarrow> (\<forall>(nm, p, c) \<in> set rs. nm \<noteq> ''error'')"
  by (induction rs rule: scanMethodErrors.induct) auto

lemma scanMethodErrors_first:
  "\<forall>(nm, p, c) \<in> set before. nm \<noteq> ''error'' \<Longrightarrow>
     scanMethodErrors (before @ (''error'', payload, cid) # after) =
       Some (failMethod payload (Some cid))"
  by (induction before rule: scanMethodErrors.induct) auto

lemma failMethod_not_null:
  "payload \<noteq> JNull \<Longrightarrow>
     failMethod payload cid =
       MethodError \<lparr>type = getProp payload ''type'', description = getProp payload ''description'',
                    details = getProp payload ''details'', callId = cid\<rparr>"
  by (cases payload) (simp_all add: failMethod_def fromMethodError_def)

section \<open>Chunking\<close>

lemma chunk_count_less: "0 < m \<Longrightarrow> k < (n + m - 1) div m \<longleftrightarrow> k * m < (n::nat)"
proof -
  assume m: "0 < m"
  have "k < (n + m - 1) div m \<longleftrightarrow> Suc k \<le> (n + m - 1) div m" by auto
  also have "\<dots> \<longleftrightarrow> Suc k * m \<le> n + m - 1"
    using m by (simp add: less_eq_div_iff_mult_less_eq)
  also have "\<dots> \<longleftrightarrow> k * m < n" using m by auto
  finally show ?thesis .
qed

lemma slice_chunk:
  "0 < m \<Longrightarrow> i < length xs \<Longrightarrow> slice xs (int i) (int i + int m) = take m (drop i xs)"
proof -
  assume m: "0 < m" and i: "i < length xs"
  show ?thesis
  proof (cases "i + m \<le> length xs")
    case True
    then have "min (int i + int m) (int (length xs)) = int i + int m" by simp
    with i show ?thesis by (simp add: slice_def Let_def)
  next
    case False
    then have "min (int i + int m) (int (length xs)) = int (length xs)" by simp
    moreover have "nat (int (length xs) - int i) = length (drop i xs)" by simp
    moreover have "length (drop i xs) \<le> m" using False by simp
    ultimately show ?thesis using i by (simp add: slice_def Let_def del: length_drop)
  qed
qed

lemma chunkLoop_from:
  assumes m: "0 < m"
  shows "chunkLoop (int m) xs (int (k * m)) acc =
           Some (acc @ map (\<lambda>j. take m (drop (j * m) xs)) [k ..< (length xs + m - 1) div m])"
proof (induction "(length xs + m - 1) div m - k" arbitrary: k acc)
  case 0
  then have "\<not> k < (length xs + m - 1) div m" by simp
  then have "\<not> k * m < length xs" using chunk_count_less [OF m, of k "length xs"] by blast
  then have "chunkLoop (int m) xs (int (k * m)) acc = Some acc"
    by (subst chunkLoop.simps) (simp del: of_nat_mult)
  with 0 show ?case by simp
next
  case (Suc d)
  then have k: "k < (length xs + m - 1) div m" by simp
  then have lt: "k * m < length xs" using chunk_count_less [OF m, of k "length xs"] by blast
  have d: "d = (length xs + m - 1) div m - Suc k" using Suc.hyps(2) by simp
  have "chunkLoop (int m) xs (int (k * m)) acc =
        chunkLoop (int m) xs (int (Suc k * m)) (acc @ [slice xs (int (k * m)) (int (k * m) + int m)])"
    using lt by (subst chunkLoop.simps) (simp del: of_nat_mult add: add.commute)
  also have "\<dots> = Some ((acc @ [take m (drop (k * m) xs)]) @
      map (\<lambda>j. take m (drop (j * m) xs)) [Suc k ..< (length xs + m - 1) div m])"
    using Suc.hyps(1) [OF d] slice_chunk [OF m lt] by simp
  also have "\<dots> = Some (acc @ map (\<lambda>j. take m (drop (j * m) xs)) [k ..< (length xs + m - 1) div m])"
    using k by (simp add: upt_conv_Cons)
  finally show ?case .
qed

lemma chunkLoop_contiguous:
  "0 < mbs \<Longrightarrow> chunkLoop mbs calls 0 [] = Some (contiguousChunks (nat mbs) calls)"
  using chunkLoop_from [of "nat mbs" calls 0 "[]"] by (simp add: contiguousChunks_def)

lemma chunkLoop_nonpositive_step:
  assumes "chunkLoop mbs calls i chunks = Some y"
  shows "mbs \<le> 0 \<longrightarrow> \<not> i < int (length calls)"
  by (rule chunkLoop.raw_induct [OF _ assms]) (fastforce split: if_splits)

lemma chunkLoop_diverges: "mbs \<le> 0 \<Longrightarrow> calls \<noteq> [] \<Longrightarrow> chunkLoop mbs calls 0 [] = None"
  using chunkLoop_nonpositive_step [of mbs calls 0 "[]"]
  by (cases "chunkLoop mbs calls 0 []") auto

lemma concat_chunks_take:
  "concat (map (\<lambda>j. take m (drop (j * m) xs)) [0 ..< k]) = take (k * m) xs"
proof (induction k)
  case 0
  then show ?case by simp
next
  case (Suc k)
  have "take (Suc k * m) xs = take (k * m) xs @ take m (drop (k * m) xs)"
    using take_add [of "k * m" m xs] by (simp add: add.commute)
  with Suc show ?case by simp
qed

lemma concat_contiguousChunks: "0 < m \<Longrightarrow> concat (contiguousChunks m xs) = xs"
proof -
  assume m: "0 < m"
  let ?N = "(length xs + m - 1) div m"
  have "\<not> ?N < ?N" by simp
  then have "\<not> ?N * m < length xs" using m chunk_count_less [of m ?N "length xs"] by blast
  then show ?thesis by (simp add: contiguousChunks_def concat_chunks_take)
qed

lemma contiguousChunks_sizes:
  "0 < m \<Longrightarrow> c \<in> set (contiguousChunks m xs) \<Longrightarrow> c \<noteq> [] \<and> length c \<le> m"
proof -
  assume m: "0 < m" and c: "c \<in> set (contiguousChunks m xs)"
  then obtain k where k: "k < (length xs + m - 1) div m" and ck: "c = take m (drop (k * m) xs)"
    by (auto simp: contiguousChunks_def)
  from k have "k * m < length xs" using chunk_count_less [OF m, of k "length xs"] by blast
  with m ck show ?thesis by simp
qed

lemma length_contiguousChunks: "length (contiguousChunks m xs) = (length xs + m - 1) div m"
  by (simp add: contiguousChunks_def)

lemma ceiling_count:
  "0 < m \<Longrightarrow> int ((n + m - 1) div m) = \<lceil>real n / real m\<rceil>"
proof -
  assume m: "0 < m"
  let ?N = "(n + m - 1) div m"
  have up: "n \<le> ?N * m"
    using chunk_count_less [OF m, of ?N n] by simp
  have "real n \<le> real (?N * m)" using up by (simp only: of_nat_le_iff)
  then have a: "real n / real m \<le> real ?N" using m by (simp add: divide_le_eq)
  have b: "real ?N - 1 < real n / real m"
  proof (cases "?N = 0")
    case True
    have z: "0 \<le> real n / real m" by simp
    have "real ?N = 0" using True by simp
    with z show ?thesis by linarith
  next
    case False
    then have "?N - 1 < ?N" by simp
    then have "(?N - 1) * m < n" using chunk_count_less [OF m, of "?N - 1" n] by blast
    then have "real ((?N - 1) * m) < real n" by (simp only: of_nat_less_iff)
    then have "real (?N - 1) < real n / real m" using m by (simp add: less_divide_eq)
    with False show ?thesis by (simp add: of_nat_diff)
  qed
  have "\<lceil>real n / real m\<rceil> = int ?N"
    using a b by (intro ceiling_unique) simp_all
  then show ?thesis by simp
qed

section \<open>The chunk exchanges of batch\<close>

lemma chunkResponses_append:
  "chunkResponses config dec http u (cs1 @ cs2) w =
     (case chunkResponses config dec http u cs1 w of
        (Inl e, w1) \<Rightarrow> (Inl e, w1)
      | (Inr rs1, w1) \<Rightarrow>
          (case chunkResponses config dec http u cs2 w1 of
             (Inl e, w2) \<Rightarrow> (Inl e, w2)
           | (Inr rs2, w2) \<Rightarrow> (Inr (rs1 @ rs2), w2)))"
  by (induction cs1 arbitrary: w) (auto split: prod.splits sum.splits)

lemma chunkResponses_fails_at:
  "chunkResponses config dec http u cs1 w = (Inr rs, w1) \<Longrightarrow>
   executeJMAPRequest config dec http (requestOf u c) w1 = (Inl e, w2) \<Longrightarrow>
     chunkResponses config dec http u (cs1 @ c # cs2) w = (Inl e, w2)"
  by (simp add: chunkResponses_append)

lemma chunkExchanges_chunkResponses:
  "chunkExchanges config dec http u cs allResponses latest w =
     (case chunkResponses config dec http u cs w of
        (Inl e, w') \<Rightarrow> (Inl e, w')
      | (Inr rs, w') \<Rightarrow>
          (Inr (allResponses @ concat (map methodResponses rs),
                if rs = [] then latest else sessionState (last rs)), w'))"
  by (induction cs arbitrary: allResponses latest w) (auto split: prod.splits sum.splits)

lemma chunkResponses_length:
  "chunkResponses config dec http u cs w = (Inr rs, w') \<Longrightarrow> length rs = length cs"
  by (induction cs arbitrary: rs w) (auto split: prod.splits sum.splits)

lemma chunkResponses_exchanges:
  "chunkResponses config dec http u cs w = (Inr rs, w') \<Longrightarrow>
     exchanges (sent w') = exchanges (sent w) @ map (requestOf u) cs"
proof (induction cs arbitrary: rs w)
  case Nil
  then show ?case by simp
next
  case (Cons c cs)
  from Cons.prems obtain r w1 rs' where
    x: "executeJMAPRequest config dec http (requestOf u c) w = (Inr r, w1)" and
    rest: "chunkResponses config dec http u cs w1 = (Inr rs', w')"
    by (auto split: prod.splits sum.splits)
  from executeJMAPRequest_success_exchanges [OF x] Cons.IH [OF rest] show ?case by simp
qed

lemma chunkResponses_no_errors:
  "chunkResponses config dec http u cs w = (Inr rs, w') \<Longrightarrow>
     \<forall>r \<in> set rs. scanMethodErrors (methodResponses r) = None"
proof (induction cs arbitrary: rs w)
  case Nil
  then show ?case by simp
next
  case (Cons c cs)
  from Cons.prems obtain r w1 rs' where
    x: "executeJMAPRequest config dec http (requestOf u c) w = (Inr r, w1)" and
    rest: "chunkResponses config dec http u cs w1 = (Inr rs', w')" and rs: "rs = r # rs'"
    by (auto split: prod.splits sum.splits)
  from executeJMAPRequest_success [OF x] Cons.IH [OF rest] rs show ?case by auto
qed

lemma batch_single:
  "int (length calls) \<le> maxBatchSizeOf config \<Longrightarrow>
     batch config dec http calls usingArg w =
       Some (executeJMAPRequest config dec http (requestOf (usingOf usingArg) calls) w)"
  by (simp add: batch_def)

lemma batch_chunked:
  "0 < maxBatchSizeOf config \<Longrightarrow> int (length calls) > maxBatchSizeOf config \<Longrightarrow>
     batch config dec http calls usingArg w =
       Some (case chunkResponses config dec http (usingOf usingArg)
                    (contiguousChunks (nat (maxBatchSizeOf config)) calls) w of
               (Inl e, w') \<Rightarrow> (Inl e, w')
             | (Inr rs, w') \<Rightarrow>
                 (Inr \<lparr>methodResponses = concat (map methodResponses rs), createdIds = None,
                       sessionState = (if rs = [] then [] else sessionState (last rs))\<rparr>, w'))"
  by (simp add: batch_def chunkLoop_contiguous chunkExchanges_chunkResponses
      split: prod.splits sum.splits)

lemma contiguousChunks_nonempty:
  "0 < m \<Longrightarrow> xs \<noteq> [] \<Longrightarrow> contiguousChunks m xs \<noteq> []"
  using chunk_count_less [of m 0 "length xs"] by (auto simp: contiguousChunks_def)

lemma batch_chunked_success:
  assumes "0 < maxBatchSizeOf config" and "int (length calls) > maxBatchSizeOf config"
    and "chunkResponses config dec http (usingOf usingArg)
           (contiguousChunks (nat (maxBatchSizeOf config)) calls) w = (Inr rs, w')"
  shows "batch config dec http calls usingArg w =
           Some (Inr \<lparr>methodResponses = concat (map methodResponses rs), createdIds = None,
                      sessionState = sessionState (last rs)\<rparr>, w')"
    and "rs \<noteq> []"
proof -
  have "calls \<noteq> []" using assms(1,2) by auto
  then have "contiguousChunks (nat (maxBatchSizeOf config)) calls \<noteq> []"
    using assms(1) by (simp add: contiguousChunks_nonempty)
  then show "rs \<noteq> []" using chunkResponses_length [OF assms(3)] by auto
  then show "batch config dec http calls usingArg w =
           Some (Inr \<lparr>methodResponses = concat (map methodResponses rs), createdIds = None,
                      sessionState = sessionState (last rs)\<rparr>, w')"
    using assms by (simp add: batch_chunked)
qed

lemma batch_fails_at:
  assumes "0 < maxBatchSizeOf config"
    and "batchChunks config calls = cs1 @ c # cs2"
    and "chunkResponses config dec http (usingOf usingArg) cs1 w = (Inr rs, w1)"
    and "executeJMAPRequest config dec http (requestOf (usingOf usingArg) c) w1 = (Inl e, w2)"
  shows "batch config dec http calls usingArg w = Some (Inl e, w2)"
proof (cases "int (length calls) > maxBatchSizeOf config")
  case True
  with assms(2) have "contiguousChunks (nat (maxBatchSizeOf config)) calls = cs1 @ c # cs2"
    by (simp add: batchChunks_def)
  with chunkResponses_fails_at [OF assms(3,4), of cs2] True assms(1)
  show ?thesis by (simp add: batch_chunked)
next
  case False
  with assms(2) have "[calls] = cs1 @ c # cs2" by (simp add: batchChunks_def)
  then have "cs1 = []" "c = calls" by (auto simp: Cons_eq_append_conv)
  with assms(3,4) False show ?thesis by (simp add: batch_single)
qed

lemma batch_no_error_invocation:
  assumes "batch config dec http calls usingArg w = Some (Inr r, w')"
  shows "scanMethodErrors (methodResponses r) = None"
proof (cases "int (length calls) > maxBatchSizeOf config")
  case False
  with assms have "executeJMAPRequest config dec http (requestOf (usingOf usingArg) calls) w = (Inr r, w')"
    by (simp add: batch_def)
  from executeJMAPRequest_success [OF this] show ?thesis by blast
next
  case True
  with assms obtain chunks where c: "chunkLoop (maxBatchSizeOf config) calls 0 [] = Some chunks"
    by (auto simp: batch_def split: option.splits)
  obtain res w1 where cr: "chunkResponses config dec http (usingOf usingArg) chunks w = (res, w1)"
    by (cases "chunkResponses config dec http (usingOf usingArg) chunks w")
  with assms True c obtain rs where rs: "res = Inr rs"
    and r: "methodResponses r = concat (map methodResponses rs)"
    by (cases res) (auto simp: batch_def chunkExchanges_chunkResponses)
  from chunkResponses_no_errors [of config dec http "usingOf usingArg" chunks w rs w1] cr rs
  have "\<forall>x \<in> set rs. \<forall>(nm, p, c) \<in> set (methodResponses x). nm \<noteq> ''error''"
    by (simp add: scanMethodErrors_None)
  then have "\<forall>(nm, p, c) \<in> set (concat (map methodResponses rs)). nm \<noteq> ''error''" by auto
  with r show ?thesis by (simp add: scanMethodErrors_None)
qed

text \<open>
  The client does not validate the batch size. With one that is zero or negative the
  chunking loop never ends, so \<open>batch\<close> on a list that is not empty never returns; on
  the empty list and a negative batch size it makes no exchange and returns an empty
  response. The claims about chunked calls are stated for a positive batch size.
\<close>

lemma batch_nonpositive_never_returns:
  "maxBatchSizeOf config \<le> 0 \<Longrightarrow> calls \<noteq> [] \<Longrightarrow>
     batch config dec http calls usingArg w = None"
proof -
  assume m: "maxBatchSizeOf config \<le> 0" and c: "calls \<noteq> []"
  from c have "0 < int (length calls)" by simp
  with m have "maxBatchSizeOf config < int (length calls)" by linarith
  with m c show ?thesis by (simp add: batch_def chunkLoop_diverges)
qed

lemma batch_negative_empty:
  "maxBatchSizeOf config < 0 \<Longrightarrow>
     batch config dec http [] usingArg w =
       Some (Inr \<lparr>methodResponses = [], createdIds = None, sessionState = []\<rparr>, w)"
  by (simp add: batch_def chunkLoop.simps)

section \<open>Claims about the request dispatcher\<close>

text \<open>
  Claim C5. When the API endpoint answers an exchange with status 401,
  \<open>executeJMAPRequest\<close> fails with an authentication error in the world that the
  answered attempt left, with the session cache set to absent: nothing is sent after
  the 401, and when the first attempt is the one answered, that single request is all
  the exchange sent. In the world it leaves, at whatever later time, \<open>getSession\<close> is
  a session fetch and sends a request to the session URL.
\<close>

theorem api_unauthorized:
  "(\<forall>s w1 response w2.
      getSession config dec http w = (Inr s, w1) \<and>
      execute config http (apiRequest config s request) w1 = (Inr response, w2) \<and>
      status response = 401 \<longrightarrow>
        executeJMAPRequest config dec http request w =
          (Inl (AuthenticationError ''Bearer token expired or invalid'' None),
           w2\<lparr>cachedSessionState := None\<rparr>) \<and>
        (\<exists>w0 i. attempt http (apiRequest config s request) i w0 = (Inr response, w2)) \<and>
        (\<forall>http' t.
           getSession config dec http' (w2\<lparr>cachedSessionState := None, clock := t\<rparr>) =
             fetchSession config dec http' (w2\<lparr>cachedSessionState := None, clock := t\<rparr>) \<and>
           (\<exists>k. 0 < k \<and>
              sent (snd (getSession config dec http' (w2\<lparr>cachedSessionState := None, clock := t\<rparr>))) =
                sent w2 @ map (\<lambda>i. (sessionRequest config, i)) [0 ..< k]))) \<and>
   (\<forall>s w1 response elapsed.
      getSession config dec http w = (Inr s, w1) \<and>
      http (sent w1) (apiRequest config s request) = (Inr response, elapsed) \<and>
      status response = 401 \<longrightarrow>
        executeJMAPRequest config dec http request w =
          (Inl (AuthenticationError ''Bearer token expired or invalid'' None),
           w1\<lparr>cachedSessionState := None, clock := clock w1 + int elapsed,
              sent := sent w1 @ [(apiRequest config s request, 0)]\<rparr>))"
proof (intro conjI allI impI)
  fix s w1 response w2
  assume h: "getSession config dec http w = (Inr s, w1) \<and>
      execute config http (apiRequest config s request) w1 = (Inr response, w2) \<and>
      status response = 401"
  then show "executeJMAPRequest config dec http request w =
          (Inl (AuthenticationError ''Bearer token expired or invalid'' None),
           w2\<lparr>cachedSessionState := None\<rparr>)"
    by (simp add: executeJMAPRequest_unauthorized)
  from h show "\<exists>w0 i. attempt http (apiRequest config s request) i w0 = (Inr response, w2)"
    using execute_last_attempt by blast
  fix http' t
  let ?w3 = "w2\<lparr>cachedSessionState := None, clock := t\<rparr>"
  have m: "mustFetch ?w3" by (simp add: mustFetch_def)
  then show eq: "getSession config dec http' ?w3 = fetchSession config dec http' ?w3"
    by (rule getSession_fetches)
  show "\<exists>k. 0 < k \<and> sent (snd (getSession config dec http' ?w3)) =
                sent w2 @ map (\<lambda>i. (sessionRequest config, i)) [0 ..< k]"
    using fetchSession_sent [of config dec http' ?w3 "fst (fetchSession config dec http' ?w3)"
        "snd (fetchSession config dec http' ?w3)"] eq by simp
next
  fix s w1 response elapsed
  assume h: "getSession config dec http w = (Inr s, w1) \<and>
      http (sent w1) (apiRequest config s request) = (Inr response, elapsed) \<and>
      status response = 401"
  let ?w2 = "w1\<lparr>clock := clock w1 + int elapsed, sent := sent w1 @ [(apiRequest config s request, 0)]\<rparr>"
  from h have "attempt http (apiRequest config s request) 0 w1 = (Inr response, ?w2)"
    by (simp add: attempt_def)
  then have "execute config http (apiRequest config s request) w1 = (Inr response, ?w2)"
    by (rule execute_response_first)
  with h show "executeJMAPRequest config dec http request w =
          (Inl (AuthenticationError ''Bearer token expired or invalid'' None),
           w1\<lparr>cachedSessionState := None, clock := clock w1 + int elapsed,
              sent := sent w1 @ [(apiRequest config s request, 0)]\<rparr>)"
    by (simp add: executeJMAPRequest_unauthorized)
qed

text \<open>
  Claim C3, as amended. Take an exchange of \<open>batch\<close> (of the whole list, or of a chunk
  after the exchanges of the chunks before it succeeded) whose decoded response holds
  invocations named \<open>error\<close>, and let the first of them have a payload that is not
  \<open>null\<close> and the call id X. Then \<open>batch\<close> fails with the method error built from that
  payload (its \<open>type\<close>, \<open>description\<close> and \<open>details\<close>) with call id X, whatever other
  invocations the response holds. And a response that \<open>batch\<close> returns holds no
  invocation named \<open>error\<close>.
\<close>

theorem batch_method_error:
  "(\<forall>cs1 c cs2 rs w1 s w2 response w3 j r before payload cid after.
      0 < maxBatchSizeOf config \<and> batchChunks config calls = cs1 @ c # cs2 \<and>
      chunkResponses config dec http (usingOf usingArg) cs1 w = (Inr rs, w1) \<and>
      getSession config dec http w1 = (Inr s, w2) \<and>
      execute config http (apiRequest config s (requestOf (usingOf usingArg) c)) w2 =
        (Inr response, w3) \<and>
      status response = 200 \<and> body response = BodyJSON j \<and> decodeResponse dec j = Inr r \<and>
      methodResponses r = before @ (''error'', payload, cid) # after \<and>
      (\<forall>(nm, p, i) \<in> set before. nm \<noteq> ''error'') \<and> payload \<noteq> JNull \<longrightarrow>
        batch config dec http calls usingArg w =
          Some (Inl (MethodError \<lparr>type = getProp payload ''type'',
                       description = getProp payload ''description'',
                       details = getProp payload ''details'', callId = Some cid\<rparr>), w3)) \<and>
   (\<forall>r w'. batch config dec http calls usingArg w = Some (Inr r, w') \<longrightarrow>
      (\<forall>(nm, p, i) \<in> set (methodResponses r). nm \<noteq> ''error''))"
proof (intro conjI allI impI)
  fix cs1 c cs2 rs w1 s w2 response w3 j r before payload cid after
  assume h: "0 < maxBatchSizeOf config \<and> batchChunks config calls = cs1 @ c # cs2 \<and>
      chunkResponses config dec http (usingOf usingArg) cs1 w = (Inr rs, w1) \<and>
      getSession config dec http w1 = (Inr s, w2) \<and>
      execute config http (apiRequest config s (requestOf (usingOf usingArg) c)) w2 =
        (Inr response, w3) \<and>
      status response = 200 \<and> body response = BodyJSON j \<and> decodeResponse dec j = Inr r \<and>
      methodResponses r = before @ (''error'', payload, cid) # after \<and>
      (\<forall>(nm, p, i) \<in> set before. nm \<noteq> ''error'') \<and> payload \<noteq> JNull"
  then have "scanMethodErrors (methodResponses r) = Some (failMethod payload (Some cid))"
    by (simp add: scanMethodErrors_first)
  with h have "executeJMAPRequest config dec http (requestOf (usingOf usingArg) c) w1 =
      (Inl (failMethod payload (Some cid)), w3)"
    using executeJMAPRequest_decoded [of config dec http w1 s w2 "requestOf (usingOf usingArg) c"
        response w3 j r] by simp
  with h show "batch config dec http calls usingArg w =
          Some (Inl (MethodError \<lparr>type = getProp payload ''type'',
                       description = getProp payload ''description'',
                       details = getProp payload ''details'', callId = Some cid\<rparr>), w3)"
    using batch_fails_at [of config calls cs1 c cs2 dec http usingArg w rs w1] failMethod_not_null
    by fastforce
next
  fix r w'
  assume "batch config dec http calls usingArg w = Some (Inr r, w')"
  from batch_no_error_invocation [OF this]
  show "\<forall>(nm, p, i) \<in> set (methodResponses r). nm \<noteq> ''error''"
    by (simp add: scanMethodErrors_None)
qed

text \<open>
  Claim C1. With a positive batch size \<open>m\<close> and more than \<open>m\<close> calls, when the exchange
  of every chunk succeeds: \<open>batch\<close> returns the response whose \<open>methodResponses\<close> are
  those of the chunks' responses, concatenated in chunk order; the chunks are the
  consecutive runs of at most \<open>m\<close> calls that make up the list, none empty; there are
  \<open>ceil (length / m)\<close> of them; and the API exchanges made are exactly one per chunk,
  in order.
\<close>

theorem batch_chunks_in_order:
  "0 < maxBatchSizeOf config \<and> int (length calls) > maxBatchSizeOf config \<and>
   chunkResponses config dec http (usingOf usingArg)
      (contiguousChunks (nat (maxBatchSizeOf config)) calls) w = (Inr rs, w') \<longrightarrow>
     batch config dec http calls usingArg w =
       Some (Inr \<lparr>methodResponses = concat (map methodResponses rs), createdIds = None,
                  sessionState = sessionState (last rs)\<rparr>, w') \<and>
     concat (contiguousChunks (nat (maxBatchSizeOf config)) calls) = calls \<and>
     (\<forall>c \<in> set (contiguousChunks (nat (maxBatchSizeOf config)) calls).
        c \<noteq> [] \<and> int (length c) \<le> maxBatchSizeOf config) \<and>
     int (length (contiguousChunks (nat (maxBatchSizeOf config)) calls)) =
       \<lceil>real (length calls) / real_of_int (maxBatchSizeOf config)\<rceil> \<and>
     length rs = length (contiguousChunks (nat (maxBatchSizeOf config)) calls) \<and>
     exchanges (sent w') =
       exchanges (sent w) @
       map (requestOf (usingOf usingArg)) (contiguousChunks (nat (maxBatchSizeOf config)) calls)"
proof (intro impI)
  let ?m = "nat (maxBatchSizeOf config)"
  assume h: "0 < maxBatchSizeOf config \<and> int (length calls) > maxBatchSizeOf config \<and>
   chunkResponses config dec http (usingOf usingArg) (contiguousChunks ?m calls) w = (Inr rs, w')"
  then have m: "0 < ?m" by simp
  have 1: "batch config dec http calls usingArg w =
       Some (Inr \<lparr>methodResponses = concat (map methodResponses rs), createdIds = None,
                  sessionState = sessionState (last rs)\<rparr>, w')"
    using h batch_chunked_success(1) by blast
  have 2: "concat (contiguousChunks ?m calls) = calls"
    using m by (rule concat_contiguousChunks)
  have 3: "\<forall>c \<in> set (contiguousChunks ?m calls). c \<noteq> [] \<and> int (length c) \<le> maxBatchSizeOf config"
  proof
    fix c
    assume "c \<in> set (contiguousChunks ?m calls)"
    from contiguousChunks_sizes [OF m this] have "c \<noteq> []" and "length c \<le> ?m" by simp_all
    then show "c \<noteq> [] \<and> int (length c) \<le> maxBatchSizeOf config" using h by linarith
  qed
  have "real ?m = real_of_int (maxBatchSizeOf config)" using h by simp
  then have 4: "int (length (contiguousChunks ?m calls)) =
       \<lceil>real (length calls) / real_of_int (maxBatchSizeOf config)\<rceil>"
    using ceiling_count [OF m, of "length calls"] by (simp add: length_contiguousChunks)
  have 5: "length rs = length (contiguousChunks ?m calls)"
    using h chunkResponses_length by blast
  have 6: "exchanges (sent w') = exchanges (sent w) @
       map (requestOf (usingOf usingArg)) (contiguousChunks ?m calls)"
    using h chunkResponses_exchanges by blast
  from 1 2 3 4 5 6 show "batch config dec http calls usingArg w =
       Some (Inr \<lparr>methodResponses = concat (map methodResponses rs), createdIds = None,
                  sessionState = sessionState (last rs)\<rparr>, w') \<and>
     concat (contiguousChunks ?m calls) = calls \<and>
     (\<forall>c \<in> set (contiguousChunks ?m calls). c \<noteq> [] \<and> int (length c) \<le> maxBatchSizeOf config) \<and>
     int (length (contiguousChunks ?m calls)) =
       \<lceil>real (length calls) / real_of_int (maxBatchSizeOf config)\<rceil> \<and>
     length rs = length (contiguousChunks ?m calls) \<and>
     exchanges (sent w') =
       exchanges (sent w) @ map (requestOf (usingOf usingArg)) (contiguousChunks ?m calls)"
    by blast
qed

text \<open>
  Claim C6. With a positive batch size and more calls than it, when the exchange of
  every chunk succeeds, there is a last chunk response, and the \<open>sessionState\<close> of the
  response \<open>batch\<close> returns is the \<open>sessionState\<close> of that last chunk response.
\<close>

theorem batch_sessionState_last:
  "0 < maxBatchSizeOf config \<and> int (length calls) > maxBatchSizeOf config \<and>
   chunkResponses config dec http (usingOf usingArg)
      (contiguousChunks (nat (maxBatchSizeOf config)) calls) w = (Inr rs, w') \<longrightarrow>
     rs \<noteq> [] \<and>
     (\<exists>r. batch config dec http calls usingArg w = Some (Inr r, w') \<and>
          sessionState r = sessionState (last rs))"
  using batch_chunked_success [of config calls dec http usingArg w rs w'] by auto

text \<open>
  Claim C9. With a positive batch size and more calls than it, when the exchanges of
  the chunks before some chunk succeed and the exchange of that chunk fails, \<open>batch\<close>
  fails with that failure, in the world that exchange left: the failure carries none
  of the earlier responses, and the API exchanges made are those of the earlier chunks
  and at most the one that failed, none of a later chunk.
\<close>

theorem batch_first_failure:
  "0 < maxBatchSizeOf config \<and> int (length calls) > maxBatchSizeOf config \<and>
   contiguousChunks (nat (maxBatchSizeOf config)) calls = cs1 @ c # cs2 \<and>
   chunkResponses config dec http (usingOf usingArg) cs1 w = (Inr rs, w1) \<and>
   executeJMAPRequest config dec http (requestOf (usingOf usingArg) c) w1 = (Inl e, w2) \<longrightarrow>
     batch config dec http calls usingArg w = Some (Inl e, w2) \<and>
     (exchanges (sent w2) = exchanges (sent w) @ map (requestOf (usingOf usingArg)) cs1 \<or>
      exchanges (sent w2) =
        exchanges (sent w) @ map (requestOf (usingOf usingArg)) (cs1 @ [c]))"
proof (intro impI)
  assume h: "0 < maxBatchSizeOf config \<and> int (length calls) > maxBatchSizeOf config \<and>
   contiguousChunks (nat (maxBatchSizeOf config)) calls = cs1 @ c # cs2 \<and>
   chunkResponses config dec http (usingOf usingArg) cs1 w = (Inr rs, w1) \<and>
   executeJMAPRequest config dec http (requestOf (usingOf usingArg) c) w1 = (Inl e, w2)"
  then have "batchChunks config calls = cs1 @ c # cs2" by (simp add: batchChunks_def)
  with h have 1: "batch config dec http calls usingArg w = Some (Inl e, w2)"
    using batch_fails_at by blast
  from h have "exchanges (sent w1) = exchanges (sent w) @ map (requestOf (usingOf usingArg)) cs1"
    using chunkResponses_exchanges by blast
  moreover from h have "exchanges (sent w2) = exchanges (sent w1) \<or>
     exchanges (sent w2) = exchanges (sent w1) @ [requestOf (usingOf usingArg) c]"
    using executeJMAPRequest_failure_exchanges by blast
  ultimately have 2: "exchanges (sent w2) = exchanges (sent w) @ map (requestOf (usingOf usingArg)) cs1 \<or>
      exchanges (sent w2) = exchanges (sent w) @ map (requestOf (usingOf usingArg)) (cs1 @ [c])"
    by auto
  from 1 2 show "batch config dec http calls usingArg w = Some (Inl e, w2) \<and>
     (exchanges (sent w2) = exchanges (sent w) @ map (requestOf (usingOf usingArg)) cs1 \<or>
      exchanges (sent w2) =
        exchanges (sent w) @ map (requestOf (usingOf usingArg)) (cs1 @ [c]))"
    by blast
qed

text \<open>
  Claim C10. With a positive batch size and more calls than it, when the exchange of
  every chunk succeeds, the response \<open>batch\<close> returns has no \<open>createdIds\<close>, whatever
  the chunk responses carried. With no more calls than the batch size, \<open>batch\<close> is the
  single exchange of the whole list, and a response it returns is the envelope decoded
  from the server's answer, as decoded.
\<close>

theorem batch_createdIds:
  "(0 < maxBatchSizeOf config \<and> int (length calls) > maxBatchSizeOf config \<and>
    chunkResponses config dec http (usingOf usingArg)
       (contiguousChunks (nat (maxBatchSizeOf config)) calls) w = (Inr rs, w') \<longrightarrow>
      (\<exists>r. batch config dec http calls usingArg w = Some (Inr r, w') \<and> createdIds r = None \<and>
           methodResponses r = concat (map methodResponses rs) \<and>
           sessionState r = sessionState (last rs))) \<and>
   (int (length calls) \<le> maxBatchSizeOf config \<longrightarrow>
      batch config dec http calls usingArg w =
        Some (executeJMAPRequest config dec http (requestOf (usingOf usingArg) calls) w) \<and>
      (\<forall>r w''. batch config dec http calls usingArg w = Some (Inr r, w'') \<longrightarrow>
         (\<exists>s w1 response j.
            getSession config dec http w = (Inr s, w1) \<and>
            execute config http (apiRequest config s (requestOf (usingOf usingArg) calls)) w1 =
              (Inr response, w'') \<and>
            body response = BodyJSON j \<and> decodeResponse dec j = Inr r)))"
proof (intro conjI impI allI)
  assume "0 < maxBatchSizeOf config \<and> int (length calls) > maxBatchSizeOf config \<and>
    chunkResponses config dec http (usingOf usingArg)
       (contiguousChunks (nat (maxBatchSizeOf config)) calls) w = (Inr rs, w')"
  then show "\<exists>r. batch config dec http calls usingArg w = Some (Inr r, w') \<and> createdIds r = None \<and>
           methodResponses r = concat (map methodResponses rs) \<and>
           sessionState r = sessionState (last rs)"
    using batch_chunked_success(1) [of config calls dec http usingArg w rs w'] by simp
next
  assume le: "int (length calls) \<le> maxBatchSizeOf config"
  then show eq: "batch config dec http calls usingArg w =
        Some (executeJMAPRequest config dec http (requestOf (usingOf usingArg) calls) w)"
    by (rule batch_single)
  fix r w''
  assume "batch config dec http calls usingArg w = Some (Inr r, w'')"
  with eq have "executeJMAPRequest config dec http (requestOf (usingOf usingArg) calls) w = (Inr r, w'')"
    by simp
  from executeJMAPRequest_success [OF this]
  show "\<exists>s w1 response j.
            getSession config dec http w = (Inr s, w1) \<and>
            execute config http (apiRequest config s (requestOf (usingOf usingArg) calls)) w1 =
              (Inr response, w'') \<and>
            body response = BodyJSON j \<and> decodeResponse dec j = Inr r"
    by blast
qed

section \<open>Concrete runs\<close>

text \<open>
  The claims at concrete inputs. A response encoded by \<open>encodeResponse\<close> decodes to
  itself, which gives the outcome of an exchange that the server answers with it.
\<close>

lemma those_MethodResponse:
  "those (map MethodResponse_schema
            (map (\<lambda>(nm, p, cid). JArray [JString nm, p, JString cid]) mrs)) = Some mrs"
  by (induction mrs)
     (auto simp: MethodResponse_schema_def Schema_String_def Schema_Any_def)

lemma those_createdIds:
  "those (map (\<lambda>(k, v). map_option (Pair k) (Schema_String v))
            (map (\<lambda>(k, v). (k, JString v)) ids)) = Some ids"
  by (induction ids) (auto simp: Schema_String_def)

lemma Response_schema_encodeResponse: "Response_schema (encodeResponse r) = Some r"
proof (cases r)
  case (fields mrs ids st)
  show ?thesis
  proof (cases ids)
    case None
    with fields show ?thesis
      by (simp add: Response_schema_def encodeResponse_def required_def optional_def
          Schema_Array_def Schema_String_def those_MethodResponse del: map_map)
  next
    case (Some a)
    with fields show ?thesis
      by (simp add: Response_schema_def encodeResponse_def required_def optional_def
          Schema_Array_def Schema_Record_def those_MethodResponse those_createdIds
          del: map_map)
         (simp add: Schema_String_def)
  qed
qed

lemma decodeResponse_encodeResponse:
  "decodeResponse typesDecoders (encodeResponse r) = Inr r"
  by (simp add: typesDecoders_def decodeUnknown_def Response_schema_encodeResponse)

lemma exchange_answered:
  assumes "getSession config typesDecoders http w = (Inr s, w1)"
    and "http (sent w1) (apiRequest config s request) =
           (Inr \<lparr>status = 200, body = BodyJSON (encodeResponse r)\<rparr>, elapsed)"
  shows "executeJMAPRequest config typesDecoders http request w =
           (case scanMethodErrors (methodResponses r) of
              Some e \<Rightarrow> Inl e | None \<Rightarrow> Inr r,
            w1\<lparr>clock := clock w1 + int elapsed,
               sent := sent w1 @ [(apiRequest config s request, 0)]\<rparr>)"
proof -
  let ?w2 = "w1\<lparr>clock := clock w1 + int elapsed, sent := sent w1 @ [(apiRequest config s request, 0)]\<rparr>"
  from assms(2) have "attempt http (apiRequest config s request) 0 w1 =
      (Inr \<lparr>status = 200, body = BodyJSON (encodeResponse r)\<rparr>, ?w2)"
    by (simp add: attempt_def)
  then have "execute config http (apiRequest config s request) w1 =
      (Inr \<lparr>status = 200, body = BodyJSON (encodeResponse r)\<rparr>, ?w2)"
    by (rule execute_response_first)
  from executeJMAPRequest_decoded [OF assms(1) this, of "encodeResponse r" r]
  show ?thesis by (simp add: decodeResponse_encodeResponse split: option.splits)
qed

lemma chunks_of_fiveCalls:
  "contiguousChunks 2 fiveCalls =
     [[(''A'', JObject [], ''1''), (''B'', JObject [], ''2'')],
      [(''C'', JObject [], ''3''), (''D'', JObject [], ''4'')],
      [(''E'', JObject [], ''5'')]]"
  by (simp add: contiguousChunks_def fiveCalls_def upt_rec)

lemma example_mbs: "maxBatchSizeOf exampleConfig = 2"
  by (simp add: maxBatchSizeOf_def exampleConfig_def defaultConfig_def)

lemma fetch_from_echoServer:
  "fetchSession exampleConfig typesDecoders echoServer w =
     (Inr exampleSession,
      w\<lparr>cachedSessionState := Some \<lparr>session = exampleSession, lastUpdated = clock w + 20\<rparr>,
        clock := clock w + 20, sent := sent w @ [(sessionRequest exampleConfig, 0)]\<rparr>)"
proof -
  have "attempt echoServer (sessionRequest exampleConfig) 0 w =
      (Inr \<lparr>status = 200, body = BodyJSON exampleSessionJson\<rparr>,
       w\<lparr>clock := clock w + 20, sent := sent w @ [(sessionRequest exampleConfig, 0)]\<rparr>)"
    by (simp add: attempt_def echoServer_def sessionRequest_def)
  then show ?thesis
    by (simp add: fetchSession_def Let_def execute_response_first example_session_decoder)
qed

lemma getSession_example_cached:
  "t \<le> 300000 + l \<Longrightarrow>
     getSession exampleConfig typesDecoders http
       \<lparr>cachedSessionState = Some \<lparr>session = exampleSession, lastUpdated = l\<rparr>,
        clock = t, sent = tr\<rparr> =
     (Inr exampleSession,
      \<lparr>cachedSessionState = Some \<lparr>session = exampleSession, lastUpdated = l\<rparr>,
       clock = t, sent = tr\<rparr>)"
  by (simp add: getSession_def)

lemma exchange_answered_example:
  assumes "t \<le> 300000 + l"
    and "http tr (apiRequest exampleConfig exampleSession request) = answer r"
  shows "executeJMAPRequest exampleConfig typesDecoders http request
           \<lparr>cachedSessionState = Some \<lparr>session = exampleSession, lastUpdated = l\<rparr>,
            clock = t, sent = tr\<rparr> =
           (case scanMethodErrors (methodResponses r) of
              Some e \<Rightarrow> Inl e | None \<Rightarrow> Inr r,
            \<lparr>cachedSessionState = Some \<lparr>session = exampleSession, lastUpdated = l\<rparr>,
             clock = t + 5,
             sent = tr @ [(apiRequest exampleConfig exampleSession request, 0)]\<rparr>)"
  using exchange_answered [OF getSession_example_cached [OF assms(1)], of http tr request r 5]
    assms(2) by (simp add: answer_def)

lemma exchange_refused_example:
  assumes "t \<le> 300000 + l"
    and "http tr (apiRequest exampleConfig exampleSession request) =
           (Inr \<lparr>status = st, body = b\<rparr>, d)"
    and "st \<noteq> 200"
  shows "executeJMAPRequest exampleConfig typesDecoders http request
           \<lparr>cachedSessionState = Some \<lparr>session = exampleSession, lastUpdated = l\<rparr>,
            clock = t, sent = tr\<rparr> =
           (if st = 401 then Inl (AuthenticationError ''Bearer token expired or invalid'' None)
            else Inl (NetworkError (''HTTP '' @ digits st) None (Some st)),
            \<lparr>cachedSessionState =
               (if st = 401 then None else Some \<lparr>session = exampleSession, lastUpdated = l\<rparr>),
             clock = t + int d,
             sent = tr @ [(apiRequest exampleConfig exampleSession request, 0)]\<rparr>)"
proof -
  let ?w = "\<lparr>cachedSessionState = Some \<lparr>session = exampleSession, lastUpdated = l\<rparr>,
            clock = t, sent = tr\<rparr>"
  let ?req = "apiRequest exampleConfig exampleSession request"
  have "attempt http ?req 0 ?w =
      (Inr \<lparr>status = st, body = b\<rparr>, ?w\<lparr>clock := t + int d, sent := tr @ [(?req, 0)]\<rparr>)"
    using assms(2) by (simp add: attempt_def)
  then have "execute exampleConfig http ?req ?w =
      (Inr \<lparr>status = st, body = b\<rparr>, ?w\<lparr>clock := t + int d, sent := tr @ [(?req, 0)]\<rparr>)"
    by (rule execute_response_first)
  then show ?thesis
    using getSession_example_cached [OF assms(1), of http tr] assms(3)
    by (simp add: executeJMAPRequest_def Let_def Errors_authentication_def Errors_network_def)
qed

lemma run_echo:
  "chunkResponses exampleConfig typesDecoders echoServer (usingOf None) (contiguousChunks 2 fiveCalls) emptyWorld =
     (Inr [\<lparr>methodResponses = [(''A'', JObject [], ''1''), (''B'', JObject [], ''2'')],
             createdIds = None, sessionState = ''s1''\<rparr>,
           \<lparr>methodResponses = [(''C'', JObject [], ''3''), (''D'', JObject [], ''4'')],
             createdIds = None, sessionState = ''s2''\<rparr>,
           \<lparr>methodResponses = [(''E'', JObject [], ''5'')],
             createdIds = None, sessionState = ''s3''\<rparr>],
      \<lparr>cachedSessionState = Some \<lparr>session = exampleSession, lastUpdated = 20\<rparr>,
       clock = 80,
       sent = [(sessionRequest exampleConfig, 0),
               (apiRequest exampleConfig exampleSession
                  (requestOf (usingOf None) [(''A'', JObject [], ''1''), (''B'', JObject [], ''2'')]), 0),
               (apiRequest exampleConfig exampleSession
                  (requestOf (usingOf None) [(''C'', JObject [], ''3''), (''D'', JObject [], ''4'')]), 0),
               (apiRequest exampleConfig exampleSession
                  (requestOf (usingOf None) [(''E'', JObject [], ''5'')]), 0)]\<rparr>)"
proof -
  let ?w1 = "\<lparr>cachedSessionState = Some \<lparr>session = exampleSession, lastUpdated = 20\<rparr>,
       clock = 20, sent = [(sessionRequest exampleConfig, 0)]\<rparr>"
  have g0: "getSession exampleConfig typesDecoders echoServer emptyWorld = (Inr exampleSession, ?w1)"
    using fetch_from_echoServer [of emptyWorld]
    by (simp add: getSession_def emptyWorld_def)
  have g: "\<And>t tr. t \<le> 300020 \<Longrightarrow> getSession exampleConfig typesDecoders echoServer
      \<lparr>cachedSessionState = Some \<lparr>session = exampleSession, lastUpdated = 20\<rparr>, clock = t, sent = tr\<rparr>
      = (Inr exampleSession,
      \<lparr>cachedSessionState = Some \<lparr>session = exampleSession, lastUpdated = 20\<rparr>, clock = t, sent = tr\<rparr>)"
    by (simp add: getSession_def)
  show ?thesis
    unfolding chunks_of_fiveCalls
    apply (simp add: exchange_answered [OF g0] exchange_answered [OF g] echoServer_def apiRequest_def requestOf_def digits.simps)
    done
qed

theorem batch_chunks_in_order_witness:
  "map_option fst (batch exampleConfig typesDecoders echoServer fiveCalls None emptyWorld) =
     Some (Inr \<lparr>methodResponses = fiveCalls, createdIds = None, sessionState = ''s3''\<rparr>) \<and>
   map_option (\<lambda>x. exchanges (sent (snd x))) (batch exampleConfig typesDecoders echoServer fiveCalls None emptyWorld) =
     Some [requestOf (usingOf None) [(''A'', JObject [], ''1''), (''B'', JObject [], ''2'')],
           requestOf (usingOf None) [(''C'', JObject [], ''3''), (''D'', JObject [], ''4'')],
           requestOf (usingOf None) [(''E'', JObject [], ''5'')]]"
proof -
  let ?rs = "[\<lparr>methodResponses = [(''A'', JObject [], ''1''), (''B'', JObject [], ''2'')],
             createdIds = None, sessionState = ''s1''\<rparr>,
           \<lparr>methodResponses = [(''C'', JObject [], ''3''), (''D'', JObject [], ''4'')],
             createdIds = None, sessionState = ''s2''\<rparr>,
           \<lparr>methodResponses = [(''E'', JObject [], ''5'')],
             createdIds = None, sessionState = ''s3''\<rparr>]"
  obtain w' where run: "chunkResponses exampleConfig typesDecoders echoServer (usingOf None)
      (contiguousChunks 2 fiveCalls) emptyWorld = (Inr ?rs, w')"
    using run_echo by blast
  have hyp: "0 < maxBatchSizeOf exampleConfig \<and>
      int (length fiveCalls) > maxBatchSizeOf exampleConfig \<and>
      chunkResponses exampleConfig typesDecoders echoServer (usingOf None)
        (contiguousChunks (nat (maxBatchSizeOf exampleConfig)) fiveCalls) emptyWorld = (Inr ?rs, w')"
    using run by (simp add: example_mbs fiveCalls_def)
  from batch_chunks_in_order [of exampleConfig fiveCalls typesDecoders echoServer None emptyWorld ?rs w'] hyp
  have "batch exampleConfig typesDecoders echoServer fiveCalls None emptyWorld =
       Some (Inr \<lparr>methodResponses = concat (map methodResponses ?rs), createdIds = None,
                  sessionState = sessionState (last ?rs)\<rparr>, w')"
    and "exchanges (sent w') = exchanges (sent emptyWorld) @
       map (requestOf (usingOf None)) (contiguousChunks (nat (maxBatchSizeOf exampleConfig)) fiveCalls)"
    by blast+
  then show ?thesis
    unfolding example_mbs
    by (simp add: chunks_of_fiveCalls emptyWorld_def exchanges_def map_filter_def)
       (simp add: fiveCalls_def)
qed

lemma chunks_of_three:
  "contiguousChunks 2 (take 3 fiveCalls) =
     [[(''A'', JObject [], ''1''), (''B'', JObject [], ''2'')], [(''C'', JObject [], ''3'')]]"
  by (simp add: contiguousChunks_def fiveCalls_def upt_rec)

lemma run_two_chunks:
  "chunkResponses exampleConfig typesDecoders (scripted [answer firstResponse, answer secondResponse])
      (usingOf None) (contiguousChunks 2 (take 3 fiveCalls)) cachedWorld =
     (Inr [firstResponse, secondResponse],
      \<lparr>cachedSessionState = Some \<lparr>session = exampleSession, lastUpdated = 0\<rparr>,
       clock = 1010,
       sent = [(apiRequest exampleConfig exampleSession
                  (requestOf (usingOf None) [(''A'', JObject [], ''1''), (''B'', JObject [], ''2'')]), 0),
               (apiRequest exampleConfig exampleSession
                  (requestOf (usingOf None) [(''C'', JObject [], ''3'')]), 0)]\<rparr>)"
proof -
  let ?http = "scripted [answer firstResponse, answer secondResponse]"
  let ?r1 = "apiRequest exampleConfig exampleSession
      (requestOf (usingOf None) [(''A'', JObject [], ''1''), (''B'', JObject [], ''2'')])"
  let ?r2 = "apiRequest exampleConfig exampleSession (requestOf (usingOf None) [(''C'', JObject [], ''3'')])"
  have n1: "scanMethodErrors (methodResponses firstResponse) = None"
    by (simp add: firstResponse_def)
  have n2: "scanMethodErrors (methodResponses secondResponse) = None"
    by (simp add: secondResponse_def)
  have a1: "?http [] ?r1 = answer firstResponse" by (simp add: scripted_def)
  have a2: "?http [(?r1, 0)] ?r2 = answer secondResponse" by (simp add: scripted_def)
  note x1 = exchange_answered_example [of 1000 0 ?http "[]" _ firstResponse, OF _ a1]
  note x2 = exchange_answered_example [of 1005 0 ?http "[(?r1, 0)]" _ secondResponse, OF _ a2]
  show ?thesis
    unfolding chunks_of_three cachedWorld_def
    by (simp add: x1 x2 n1 n2)
qed

theorem batch_sessionState_last_witness:
  "\<exists>r w'. batch exampleConfig typesDecoders (scripted [answer firstResponse, answer secondResponse])
             (take 3 fiveCalls) None cachedWorld = Some (Inr r, w') \<and>
          sessionState r = ''omega'' \<and> sessionState secondResponse = ''omega''"
proof -
  let ?http = "scripted [answer firstResponse, answer secondResponse]"
  obtain w' where run: "chunkResponses exampleConfig typesDecoders ?http (usingOf None)
      (contiguousChunks 2 (take 3 fiveCalls)) cachedWorld = (Inr [firstResponse, secondResponse], w')"
    using run_two_chunks by blast
  have hyp: "0 < maxBatchSizeOf exampleConfig \<and>
      int (length (take 3 fiveCalls)) > maxBatchSizeOf exampleConfig \<and>
      chunkResponses exampleConfig typesDecoders ?http (usingOf None)
        (contiguousChunks (nat (maxBatchSizeOf exampleConfig)) (take 3 fiveCalls)) cachedWorld =
        (Inr [firstResponse, secondResponse], w')"
    using run by (simp add: example_mbs fiveCalls_def)
  from batch_sessionState_last [of exampleConfig "take 3 fiveCalls" typesDecoders ?http None cachedWorld
      "[firstResponse, secondResponse]" w'] hyp
  obtain r where "batch exampleConfig typesDecoders ?http (take 3 fiveCalls) None cachedWorld = Some (Inr r, w')"
    and "sessionState r = sessionState (last [firstResponse, secondResponse])"
    by blast
  then show ?thesis by (auto simp: secondResponse_def)
qed

lemma run_single:
  "executeJMAPRequest exampleConfig typesDecoders (scripted [answer firstResponse])
      (requestOf (usingOf None) (take 2 fiveCalls)) cachedWorld =
     (Inr firstResponse,
      \<lparr>cachedSessionState = Some \<lparr>session = exampleSession, lastUpdated = 0\<rparr>,
       clock = 1005,
       sent = [(apiRequest exampleConfig exampleSession
                  (requestOf (usingOf None) (take 2 fiveCalls)), 0)]\<rparr>)"
proof -
  let ?http = "scripted [answer firstResponse]"
  let ?r1 = "apiRequest exampleConfig exampleSession (requestOf (usingOf None) (take 2 fiveCalls))"
  have n1: "scanMethodErrors (methodResponses firstResponse) = None"
    by (simp add: firstResponse_def)
  have a1: "?http [] ?r1 = answer firstResponse" by (simp add: scripted_def)
  note x1 = exchange_answered_example [of 1000 0 ?http "[]" _ firstResponse, OF _ a1]
  show ?thesis
    unfolding cachedWorld_def by (simp add: x1 n1)
qed

theorem batch_createdIds_witness:
  "(\<exists>r w'. batch exampleConfig typesDecoders (scripted [answer firstResponse, answer secondResponse])
             (take 3 fiveCalls) None cachedWorld = Some (Inr r, w') \<and>
           createdIds r = None \<and> createdIds firstResponse = Some [(''k1'', ''id1'')] \<and>
           createdIds secondResponse = Some [(''k2'', ''id2'')]) \<and>
   map_option fst (batch exampleConfig typesDecoders (scripted [answer firstResponse]) (take 2 fiveCalls) None
      cachedWorld) = Some (Inr firstResponse)"
proof -
  let ?http = "scripted [answer firstResponse, answer secondResponse]"
  note inst = batch_createdIds [of exampleConfig]
  obtain w' where run: "chunkResponses exampleConfig typesDecoders ?http (usingOf None)
      (contiguousChunks 2 (take 3 fiveCalls)) cachedWorld = (Inr [firstResponse, secondResponse], w')"
    using run_two_chunks by blast
  have hyp: "0 < maxBatchSizeOf exampleConfig \<and>
      int (length (take 3 fiveCalls)) > maxBatchSizeOf exampleConfig \<and>
      chunkResponses exampleConfig typesDecoders ?http (usingOf None)
        (contiguousChunks (nat (maxBatchSizeOf exampleConfig)) (take 3 fiveCalls)) cachedWorld =
        (Inr [firstResponse, secondResponse], w')"
    using run by (simp add: example_mbs fiveCalls_def)
  from inst [of "take 3 fiveCalls" typesDecoders ?http None cachedWorld "[firstResponse, secondResponse]" w'] hyp
  obtain r where 1: "batch exampleConfig typesDecoders ?http (take 3 fiveCalls) None cachedWorld = Some (Inr r, w')"
    "createdIds r = None"
    by blast
  have le: "int (length (take 2 fiveCalls)) \<le> maxBatchSizeOf exampleConfig"
    by (simp add: example_mbs fiveCalls_def)
  from inst [of "take 2 fiveCalls" typesDecoders "scripted [answer firstResponse]" None cachedWorld] le
  have "batch exampleConfig typesDecoders (scripted [answer firstResponse]) (take 2 fiveCalls) None cachedWorld =
      Some (executeJMAPRequest exampleConfig typesDecoders (scripted [answer firstResponse])
              (requestOf (usingOf None) (take 2 fiveCalls)) cachedWorld)"
    by blast
  then have 2: "map_option fst (batch exampleConfig typesDecoders (scripted [answer firstResponse])
      (take 2 fiveCalls) None cachedWorld) = Some (Inr firstResponse)"
    by (simp add: run_single)
  from 1 2 show ?thesis by (auto simp: firstResponse_def secondResponse_def)
qed

theorem batch_first_failure_witness:
  "batch exampleConfig typesDecoders
      (scripted [answer firstResponse, (Inr \<lparr>status = 500, body = BodyUnreadable\<rparr>, 5)])
      fiveCalls None cachedWorld =
     Some (Inl (NetworkError ''HTTP 500'' None (Some 500)),
      \<lparr>cachedSessionState = Some \<lparr>session = exampleSession, lastUpdated = 0\<rparr>,
       clock = 1010,
       sent = [(apiRequest exampleConfig exampleSession
                  (requestOf (usingOf None) [(''A'', JObject [], ''1''), (''B'', JObject [], ''2'')]), 0),
               (apiRequest exampleConfig exampleSession
                  (requestOf (usingOf None) [(''C'', JObject [], ''3''), (''D'', JObject [], ''4'')]), 0)]\<rparr>)"
proof -
  let ?http = "scripted [answer firstResponse, (Inr \<lparr>status = 500, body = BodyUnreadable\<rparr>, 5)]"
  let ?ab = "[(''A'', JObject [], ''1''), (''B'', JObject [], ''2'')]"
  let ?cd = "[(''C'', JObject [], ''3''), (''D'', JObject [], ''4'')]"
  let ?w1 = "\<lparr>cachedSessionState = Some \<lparr>session = exampleSession, lastUpdated = 0\<rparr>,
       clock = 1005,
       sent = [(apiRequest exampleConfig exampleSession (requestOf (usingOf None) ?ab), 0)]\<rparr>"
  let ?w2 = "\<lparr>cachedSessionState = Some \<lparr>session = exampleSession, lastUpdated = 0\<rparr>,
       clock = 1010,
       sent = [(apiRequest exampleConfig exampleSession (requestOf (usingOf None) ?ab), 0),
               (apiRequest exampleConfig exampleSession (requestOf (usingOf None) ?cd), 0)]\<rparr>"
  let ?r1 = "apiRequest exampleConfig exampleSession (requestOf (usingOf None) ?ab)"
  let ?r2 = "apiRequest exampleConfig exampleSession (requestOf (usingOf None) ?cd)"
  have n1: "scanMethodErrors (methodResponses firstResponse) = None"
    by (simp add: firstResponse_def)
  have a1: "?http [] ?r1 = answer firstResponse" by (simp add: scripted_def)
  have a2: "?http [(?r1, 0)] ?r2 = (Inr \<lparr>status = 500, body = BodyUnreadable\<rparr>, 5)"
    by (simp add: scripted_def)
  note x1 = exchange_answered_example [of 1000 0 ?http "[]" _ firstResponse, OF _ a1]
  have a: "chunkResponses exampleConfig typesDecoders ?http (usingOf None) [?ab] cachedWorld =
      (Inr [firstResponse], ?w1)"
    unfolding cachedWorld_def by (simp add: x1 n1)
  have d: "digits 500 = ''500''" by (simp add: digits.simps)
  have b: "executeJMAPRequest exampleConfig typesDecoders ?http (requestOf (usingOf None) ?cd) ?w1 =
      (Inl (NetworkError ''HTTP 500'' None (Some 500)), ?w2)"
    using exchange_refused_example [of 1005 0 ?http "[(?r1, 0)]" _ 500 BodyUnreadable 5, OF _ a2]
    by (simp add: d)
  have hyp: "0 < maxBatchSizeOf exampleConfig \<and>
      int (length fiveCalls) > maxBatchSizeOf exampleConfig \<and>
      contiguousChunks (nat (maxBatchSizeOf exampleConfig)) fiveCalls =
        [?ab] @ ?cd # [[(''E'', JObject [], ''5'')]] \<and>
      chunkResponses exampleConfig typesDecoders ?http (usingOf None) [?ab] cachedWorld =
        (Inr [firstResponse], ?w1) \<and>
      executeJMAPRequest exampleConfig typesDecoders ?http (requestOf (usingOf None) ?cd) ?w1 =
        (Inl (NetworkError ''HTTP 500'' None (Some 500)), ?w2)"
    using a b by (simp add: example_mbs chunks_of_fiveCalls) (simp add: fiveCalls_def)
  from batch_first_failure [of exampleConfig fiveCalls "[?ab]" ?cd "[[(''E'', JObject [], ''5'')]]"
      typesDecoders ?http None cachedWorld "[firstResponse]" ?w1
      "NetworkError ''HTTP 500'' None (Some 500)" ?w2] hyp
  show ?thesis by blast
qed

theorem api_unauthorized_witness:
  "executeJMAPRequest exampleConfig typesDecoders (scripted [(Inr \<lparr>status = 401, body = BodyUnreadable\<rparr>, 5)])
      (requestOf (usingOf None) fiveCalls) cachedWorld =
     (Inl (AuthenticationError ''Bearer token expired or invalid'' None),
      \<lparr>cachedSessionState = None, clock = 1005,
       sent = [(apiRequest exampleConfig exampleSession (requestOf (usingOf None) fiveCalls), 0)]\<rparr>) \<and>
   getSession exampleConfig typesDecoders echoServer
      \<lparr>cachedSessionState = None, clock = 2000,
       sent = [(apiRequest exampleConfig exampleSession (requestOf (usingOf None) fiveCalls), 0)]\<rparr> =
     (Inr exampleSession,
      \<lparr>cachedSessionState = Some \<lparr>session = exampleSession, lastUpdated = 2020\<rparr>, clock = 2020,
       sent = [(apiRequest exampleConfig exampleSession (requestOf (usingOf None) fiveCalls), 0),
               (sessionRequest exampleConfig, 0)]\<rparr>)"
proof -
  let ?http = "scripted [(Inr \<lparr>status = 401, body = BodyUnreadable\<rparr>, 5)]"
  let ?req = "apiRequest exampleConfig exampleSession (requestOf (usingOf None) fiveCalls)"
  let ?w2 = "cachedWorld\<lparr>clock := 1005, sent := [(?req, 0)]\<rparr>"
  note inst = api_unauthorized [of exampleConfig typesDecoders ?http cachedWorld "requestOf (usingOf None) fiveCalls"]
  have g: "getSession exampleConfig typesDecoders ?http cachedWorld = (Inr exampleSession, cachedWorld)"
    by (simp add: getSession_def cachedWorld_def)
  have "attempt ?http ?req 0 cachedWorld = (Inr \<lparr>status = 401, body = BodyUnreadable\<rparr>, ?w2)"
    by (simp add: attempt_def scripted_def cachedWorld_def)
  then have e: "execute exampleConfig ?http ?req cachedWorld =
      (Inr \<lparr>status = 401, body = BodyUnreadable\<rparr>, ?w2)"
    by (rule execute_response_first)
  have hyp: "getSession exampleConfig typesDecoders ?http cachedWorld = (Inr exampleSession, cachedWorld) \<and>
      execute exampleConfig ?http ?req cachedWorld =
        (Inr \<lparr>status = 401, body = BodyUnreadable\<rparr>, ?w2) \<and>
      status \<lparr>status = 401, body = BodyUnreadable\<rparr> = 401"
    using g e by simp
  from inst hyp have 1: "executeJMAPRequest exampleConfig typesDecoders ?http (requestOf (usingOf None) fiveCalls)
      cachedWorld =
      (Inl (AuthenticationError ''Bearer token expired or invalid'' None),
       ?w2\<lparr>cachedSessionState := None\<rparr>)"
    by blast
  from inst hyp have "getSession exampleConfig typesDecoders echoServer (?w2\<lparr>cachedSessionState := None, clock := 2000\<rparr>) =
      fetchSession exampleConfig typesDecoders echoServer (?w2\<lparr>cachedSessionState := None, clock := 2000\<rparr>)"
    by blast
  then have 2: "getSession exampleConfig typesDecoders echoServer (?w2\<lparr>cachedSessionState := None, clock := 2000\<rparr>) =
     (Inr exampleSession,
      \<lparr>cachedSessionState = Some \<lparr>session = exampleSession, lastUpdated = 2020\<rparr>, clock = 2020,
       sent = [(?req, 0), (sessionRequest exampleConfig, 0)]\<rparr>)"
    by (simp add: fetch_from_echoServer cachedWorld_def)
  from 1 2 show ?thesis by (simp add: cachedWorld_def)
qed

text \<open>
  The claim as written promises, for every invocation named \<open>error\<close> in the response,
  a failure with that invocation's call id. A response with two of them (call ids 2 and
  3) makes \<open>batch\<close> fail with the first one's: the scan stops at the first.
\<close>

theorem batch_two_errors_counterexample:
  "batch exampleConfig typesDecoders (scripted [answer twoErrors]) (take 2 fiveCalls) None cachedWorld =
     Some (Inl (MethodError \<lparr>type = Some (JString ''accountNotFound''), description = None,
                  details = None, callId = Some ''2''\<rparr>),
      \<lparr>cachedSessionState = Some \<lparr>session = exampleSession, lastUpdated = 0\<rparr>,
       clock = 1005,
       sent = [(apiRequest exampleConfig exampleSession
                  (requestOf (usingOf None) (take 2 fiveCalls)), 0)]\<rparr>) \<and>
   (''error'', JObject [(''type'', JString ''serverFail'')], ''3'') \<in> set (methodResponses twoErrors) \<and>
   ''2'' \<noteq> ''3''"
proof -
  have "executeJMAPRequest exampleConfig typesDecoders (scripted [answer twoErrors])
      (requestOf (usingOf None) (take 2 fiveCalls)) cachedWorld =
     (Inl (MethodError \<lparr>type = Some (JString ''accountNotFound''), description = None,
                  details = None, callId = Some ''2''\<rparr>),
      \<lparr>cachedSessionState = Some \<lparr>session = exampleSession, lastUpdated = 0\<rparr>,
       clock = 1005,
       sent = [(apiRequest exampleConfig exampleSession
                  (requestOf (usingOf None) (take 2 fiveCalls)), 0)]\<rparr>)"
  proof -
    let ?http = "scripted [answer twoErrors]"
    let ?r1 = "apiRequest exampleConfig exampleSession (requestOf (usingOf None) (take 2 fiveCalls))"
    have n1: "scanMethodErrors (methodResponses twoErrors) =
        Some (MethodError \<lparr>type = Some (JString ''accountNotFound''), description = None,
                  details = None, callId = Some ''2''\<rparr>)"
      by (simp add: twoErrors_def failMethod_def fromMethodError_def getProp_def)
    have a1: "?http [] ?r1 = answer twoErrors" by (simp add: scripted_def)
    note x1 = exchange_answered_example [of 1000 0 ?http "[]" _ twoErrors, OF _ a1]
    show ?thesis unfolding cachedWorld_def by (simp add: x1 n1)
  qed
  moreover have "int (length (take 2 fiveCalls)) \<le> maxBatchSizeOf exampleConfig"
    by (simp add: example_mbs fiveCalls_def)
  ultimately show ?thesis by (simp add: batch_single twoErrors_def)
qed

theorem batch_method_error_witness:
  "batch exampleConfig typesDecoders (scripted [answer twoErrors]) (take 2 fiveCalls) None cachedWorld =
     Some (Inl (MethodError \<lparr>type = Some (JString ''accountNotFound''), description = None,
                  details = None, callId = Some ''2''\<rparr>),
      \<lparr>cachedSessionState = Some \<lparr>session = exampleSession, lastUpdated = 0\<rparr>,
       clock = 1005,
       sent = [(apiRequest exampleConfig exampleSession
                  (requestOf (usingOf None) (take 2 fiveCalls)), 0)]\<rparr>) \<and>
   map_option fst (batch exampleConfig typesDecoders (scripted [answer firstResponse]) (take 2 fiveCalls) None
      cachedWorld) = Some (Inr firstResponse) \<and>
   ''error'' \<notin> fst ` set (methodResponses firstResponse)"
proof -
  let ?http = "scripted [answer twoErrors]"
  let ?calls = "take 2 fiveCalls"
  let ?req = "apiRequest exampleConfig exampleSession (requestOf (usingOf None) ?calls)"
  let ?resp = "\<lparr>status = 200, body = BodyJSON (encodeResponse twoErrors)\<rparr>"
  let ?w3 = "cachedWorld\<lparr>clock := 1005, sent := [(?req, 0)]\<rparr>"
  let ?payload = "JObject [(''type'', JString ''accountNotFound'')]"
  have g: "getSession exampleConfig typesDecoders ?http cachedWorld = (Inr exampleSession, cachedWorld)"
    by (simp add: getSession_def cachedWorld_def)
  have "attempt ?http ?req 0 cachedWorld = (Inr ?resp, ?w3)"
    by (simp add: attempt_def scripted_def cachedWorld_def answer_def)
  then have e: "execute exampleConfig ?http ?req cachedWorld = (Inr ?resp, ?w3)"
    by (rule execute_response_first)
  have hyp: "0 < maxBatchSizeOf exampleConfig \<and> batchChunks exampleConfig ?calls = [] @ ?calls # [] \<and>
      chunkResponses exampleConfig typesDecoders ?http (usingOf None) [] cachedWorld = (Inr [], cachedWorld) \<and>
      getSession exampleConfig typesDecoders ?http cachedWorld = (Inr exampleSession, cachedWorld) \<and>
      execute exampleConfig ?http
        (apiRequest exampleConfig exampleSession (requestOf (usingOf None) ?calls)) cachedWorld =
        (Inr ?resp, ?w3) \<and>
      status ?resp = 200 \<and> body ?resp = BodyJSON (encodeResponse twoErrors) \<and>
      decodeResponse typesDecoders (encodeResponse twoErrors) = Inr twoErrors \<and>
      methodResponses twoErrors = [(''A'', JObject [], ''1'')] @ (''error'', ?payload, ''2'') #
        [(''error'', JObject [(''type'', JString ''serverFail'')], ''3'')] \<and>
      (\<forall>(nm, p, i) \<in> set [(''A'', JObject [], ''1'')]. nm \<noteq> ''error'') \<and> ?payload \<noteq> JNull"
  proof -
    have 1: "0 < maxBatchSizeOf exampleConfig" by (simp add: example_mbs)
    have 2: "batchChunks exampleConfig ?calls = [] @ ?calls # []"
      by (simp add: batchChunks_def example_mbs fiveCalls_def)
    have 3: "chunkResponses exampleConfig typesDecoders ?http (usingOf None) [] cachedWorld = (Inr [], cachedWorld)"
      by simp
    have 4: "status ?resp = 200 \<and> body ?resp = BodyJSON (encodeResponse twoErrors)" by simp
    have 5: "methodResponses twoErrors = [(''A'', JObject [], ''1'')] @ (''error'', ?payload, ''2'') #
        [(''error'', JObject [(''type'', JString ''serverFail'')], ''3'')]"
      by (simp add: twoErrors_def)
    have 6: "(\<forall>(nm, p, i) \<in> set [(''A'', JObject [], ''1'')]. nm \<noteq> ''error'') \<and> ?payload \<noteq> JNull"
      by simp
    from 1 2 3 g e 4 decodeResponse_encodeResponse [of twoErrors] 5 6 show ?thesis
      by (intro conjI) (erule conjunct1 conjunct2 | assumption)+
  qed
  from batch_method_error [of exampleConfig ?calls typesDecoders ?http None cachedWorld, THEN conjunct1,
      rule_format, of "[]" ?calls "[]" "[]" cachedWorld exampleSession cachedWorld ?resp ?w3
      "encodeResponse twoErrors" twoErrors "[(''A'', JObject [], ''1'')]" ?payload "''2''"
      "[(''error'', JObject [(''type'', JString ''serverFail'')], ''3'')]"] hyp
  have "batch exampleConfig typesDecoders ?http ?calls None cachedWorld =
          Some (Inl (MethodError \<lparr>type = getProp ?payload ''type'',
                       description = getProp ?payload ''description'',
                       details = getProp ?payload ''details'', callId = Some ''2''\<rparr>), ?w3)"
    by blast
  then have 1: "batch exampleConfig typesDecoders ?http ?calls None cachedWorld =
     Some (Inl (MethodError \<lparr>type = Some (JString ''accountNotFound''), description = None,
                  details = None, callId = Some ''2''\<rparr>),
      \<lparr>cachedSessionState = Some \<lparr>session = exampleSession, lastUpdated = 0\<rparr>,
       clock = 1005, sent = [(?req, 0)]\<rparr>)"
    by (simp add: getProp_def cachedWorld_def)
  have "int (length ?calls) \<le> maxBatchSizeOf exampleConfig"
    by (simp add: example_mbs fiveCalls_def)
  then have ok: "batch exampleConfig typesDecoders (scripted [answer firstResponse]) ?calls None cachedWorld =
      Some (Inr firstResponse,
      \<lparr>cachedSessionState = Some \<lparr>session = exampleSession, lastUpdated = 0\<rparr>,
       clock = 1005,
       sent = [(apiRequest exampleConfig exampleSession
                  (requestOf (usingOf None) (take 2 fiveCalls)), 0)]\<rparr>)"
    by (simp add: batch_single run_single)
  from batch_method_error [of exampleConfig ?calls typesDecoders "scripted [answer firstResponse]" None cachedWorld,
      THEN conjunct2, rule_format, OF ok]
  have "\<forall>(nm, p, i) \<in> set (methodResponses firstResponse). nm \<noteq> ''error''"
    by blast
  then have 3: "''error'' \<notin> fst ` set (methodResponses firstResponse)" by auto
  from 1 ok 3 show ?thesis by simp
qed

end
